theory Spec2Isabelle
  imports Main
begin

section \<open>The travel journal component (components/TravelJournal.tsx)\<close>

text \<open>
  The component is a React function component: eight pieces of \<open>useState\<close> state, one
  \<open>useEffect\<close> that writes the entries to \<open>localStorage\<close>, and a set of event handlers.
  The model is a record for the state, one state transformer per handler, and the effect
  as a function that runs between two renders.

  Conventions of the model:
  \<^item> a JavaScript string is a \<open>string\<close>, one \<open>char\<close> per UTF-16 code unit, so that
    \<open>length\<close> is the source's \<open>.length\<close> and \<open>[]\<close> is the only falsy string;
  \<^item> a JavaScript \<open>number\<close> that holds an index, a timestamp or an identifier is an \<open>int\<close>;
  \<^item> \<open>T | null\<close> is \<open>T option\<close>, and an object property that may be absent is an option too;
  \<^item> the state space is the one the TypeScript annotations declare;
  \<^item> what the platform supplies (\<open>fetch\<close>, \<open>Date.now\<close>, \<open>window.confirm\<close>,
    \<open>typeof window\<close>, the quota of \<open>localStorage\<close>) is a parameter of the function that uses
    it; so are \<open>JSON.stringify\<close> and \<open>JSON.parse\<close> in the definitions of the component, and
    the section on JSON below gives the two functions that are put in their place.
\<close>

subsection \<open>Data\<close>

text \<open>\<open>interface User\<close> and \<open>interface Suggestion\<close>.\<close>

record User =
  email :: string

record Suggestion =
  place_id :: int
  description :: string

text \<open>
  An element of the entries list and the value of the form state \<open>newEntry\<close>. The form
  state is declared without \<open>id\<close>, but \<open>handleEditEntry\<close> stores a list element in it and
  the spreads \<open>{ ...newEntry, ... }\<close> keep every property, so both have the same shape at run
  time: \<open>id'\<close> is \<open>None\<close> where the property is absent. (\<open>notes'\<close>, \<open>image'\<close> and
  \<open>id'\<close> are the source's \<open>notes\<close>, \<open>image\<close> and \<open>id\<close>.)
\<close>

record entry =
  title :: string
  date :: string
  location :: string
  notes' :: string
  image' :: "string option"
  video :: "string option"
  id' :: "int option"

text \<open>
  The state of the component, with the browser's \<open>localStorage\<close> beside it. \<open>entriesObj\<close>
  is the identity of the array object held in \<open>entries\<close>: React compares the dependencies
  of an effect with \<open>Object.is\<close>, that is by identity, not by content.
\<close>

record journal =
  isLoginPage :: bool
  isSignUpPage :: bool
  user :: "User option"
  entries :: "entry list"
  entriesObj :: nat
  newEntry :: entry
  editMode :: bool
  editIndex :: "int option"
  suggestions :: "Suggestion list"
  localStorage :: "string \<rightharpoonup> string"

text \<open>
  What a call can throw. \<open>Unmodelled\<close> is no exception of the platform: it stands for an
  answer that exists but that the model has no value for (a number with a fraction, a code
  unit above 255, a stored value that is no list of entries).
\<close>

datatype js_error =
  SyntaxError
| TypeError
| Error string
| QuotaExceededError
| Unmodelled

text \<open>
  What a handler does besides changing the state. The two dialog texts are Japanese in the
  source: the alert says that title, date and location are required, the confirmation asks
  whether the entry may be deleted.
\<close>

datatype effect =
  PreventDefault
| Alert
| Fetch string
| ConsoleError

text \<open>The answer of \<open>fetch\<close>: it throws, or gives a response with its \<open>ok\<close> flag and body.\<close>

datatype Response = Response (ok: bool) (json: "js_error + Suggestion list")

type_synonym fetch_env = "string \<Rightarrow> js_error + Response"

subsection \<open>Loading and saving\<close>

text \<open>\<open>fetchSuggestions\<close>, lines 17 to 25.\<close>

definition fetchSuggestions ::
  "fetch_env \<Rightarrow> string \<Rightarrow> effect list \<times> (js_error + Suggestion list)" where
  "fetchSuggestions fetch query =
     (let url = ''https://api.example.com/suggestions?query='' @ query in
      case fetch url of
        Inl e \<Rightarrow> ([Fetch url], Inl e)
      | Inr response \<Rightarrow>
          if \<not> ok response then ([Fetch url], Inl (Error ''Failed to fetch suggestions''))
          else ([Fetch url], json response))"

text \<open>
  \<open>loadSavedEntries\<close>, lines 28 to 34. \<open>hasWindow\<close> is \<open>typeof window !== "undefined"\<close>;
  \<open>getItem\<close> gives null for a missing key, and null and the empty string are falsy.
\<close>

definition loadSavedEntries ::
  "bool \<Rightarrow> (string \<Rightarrow> js_error + entry list) \<Rightarrow> (string \<rightharpoonup> string) \<Rightarrow> js_error + entry list" where
  "loadSavedEntries hasWindow JSON_parse storage =
     (if hasWindow then
        (case storage ''journalEntries'' of
           None \<Rightarrow> Inr []
         | Some savedEntries \<Rightarrow> if savedEntries \<noteq> [] then JSON_parse savedEntries else Inr [])
      else Inr [])"

text \<open>\<open>loadSavedUser\<close>, lines 36 to 42.\<close>

definition loadSavedUser ::
  "bool \<Rightarrow> (string \<Rightarrow> js_error + User option) \<Rightarrow> (string \<rightharpoonup> string) \<Rightarrow> js_error + User option" where
  "loadSavedUser hasWindow JSON_parse storage =
     (if hasWindow then
        (case storage ''user'' of
           None \<Rightarrow> Inr None
         | Some savedUser \<Rightarrow> if savedUser \<noteq> [] then JSON_parse savedUser else Inr None)
      else Inr None)"

text \<open>The initial value of the form state, lines 56 to 63.\<close>

definition initialNewEntry :: entry where
  "initialNewEntry =
     \<lparr>title = [], date = [], location = [], notes' = [], image' = None, video = None,
      id' = None\<rparr>"

text \<open>The state of the first render, lines 45 to 66.\<close>

definition initialState ::
  "bool \<Rightarrow> (string \<Rightarrow> js_error + User option) \<Rightarrow> (string \<Rightarrow> js_error + entry list) \<Rightarrow>
   (string \<rightharpoonup> string) \<Rightarrow> js_error + journal" where
  "initialState hasWindow parseUser parseEntries storage =
     (case loadSavedUser hasWindow parseUser storage of
        Inl e \<Rightarrow> Inl e
      | Inr u \<Rightarrow>
          (case loadSavedEntries hasWindow parseEntries storage of
             Inl e \<Rightarrow> Inl e
           | Inr es \<Rightarrow>
               Inr \<lparr>isLoginPage = False, isSignUpPage = False, user = u, entries = es,
                    entriesObj = 0, newEntry = initialNewEntry, editMode = False,
                    editIndex = None, suggestions = [], localStorage = storage\<rparr>))"

text \<open>
  \<open>localStorage.setItem\<close>. The browser keeps the storage of an origin within a quota of its
  own choosing: \<open>withinQuota\<close> says which contents it admits. A write that would leave the
  quota throws \<open>QuotaExceededError\<close> and changes nothing.
\<close>

type_synonym quota = "(string \<rightharpoonup> string) \<Rightarrow> bool"

definition setItem ::
  "quota \<Rightarrow> (string \<rightharpoonup> string) \<Rightarrow> string \<Rightarrow> string \<Rightarrow> js_error + (string \<rightharpoonup> string)" where
  "setItem withinQuota storage key val =
     (if withinQuota (storage(key \<mapsto> val)) then Inr (storage(key \<mapsto> val))
      else Inl QuotaExceededError)"

text \<open>The body of the effect, lines 69 to 71; nothing catches what \<open>setItem\<close> throws.\<close>

definition persistEntries ::
  "bool \<Rightarrow> quota \<Rightarrow> (entry list \<Rightarrow> string) \<Rightarrow> journal \<Rightarrow> js_error + journal" where
  "persistEntries hasWindow withinQuota JSON_stringify s =
     (if hasWindow then
        (case setItem withinQuota (localStorage s) ''journalEntries'' (JSON_stringify (entries s)) of
           Inl e \<Rightarrow> Inl e
         | Inr storage \<Rightarrow> Inr (s\<lparr>localStorage := storage\<rparr>))
      else Inr s)"

text \<open>
  \<open>useEffect(..., [entries])\<close>, lines 68 to 72: after the first render the body runs; after a
  later render it runs when the array in \<open>entries\<close> is not the one of the render before.
\<close>

definition useEffect_mount ::
  "bool \<Rightarrow> quota \<Rightarrow> (entry list \<Rightarrow> string) \<Rightarrow> journal \<Rightarrow> js_error + journal" where
  "useEffect_mount hasWindow withinQuota JSON_stringify s =
     persistEntries hasWindow withinQuota JSON_stringify s"

definition useEffect_update ::
  "bool \<Rightarrow> quota \<Rightarrow> (entry list \<Rightarrow> string) \<Rightarrow> journal \<Rightarrow> journal \<Rightarrow> js_error + journal" where
  "useEffect_update hasWindow withinQuota JSON_stringify prev s =
     (if entriesObj s \<noteq> entriesObj prev
      then persistEntries hasWindow withinQuota JSON_stringify s
      else Inr s)"

subsection \<open>Handlers\<close>

text \<open>
  \<open>setEntries\<close> with an array made by \<open>map\<close>, \<open>filter\<close> or a spread: the array is a new
  object, whatever its content.
\<close>

definition setEntries :: "entry list \<Rightarrow> journal \<Rightarrow> journal" where
  "setEntries es s = s\<lparr>entries := es, entriesObj := Suc (entriesObj s)\<rparr>"

text \<open>\<open>handleLogout\<close>, lines 75 to 78.\<close>

definition handleLogout :: "journal \<Rightarrow> journal" where
  "handleLogout s = s\<lparr>localStorage := (localStorage s)(''user'' := None), user := None\<rparr>"

text \<open>\<open>handleAuthSuccess\<close>, lines 80 to 82.\<close>

definition handleAuthSuccess :: "User \<Rightarrow> journal \<Rightarrow> journal" where
  "handleAuthSuccess userData s = s\<lparr>user := Some userData\<rparr>"

text \<open>
  \<open>handleLocationChange\<close>, lines 84 to 100, for the input's new value. The \<open>await\<close> is
  answered by \<open>fetch\<close> at once: the model is one call on its own, with nothing in between.
\<close>

definition handleLocationChange :: "fetch_env \<Rightarrow> string \<Rightarrow> journal \<Rightarrow> effect list \<times> journal" where
  "handleLocationChange fetch value s =
     (let s1 = s\<lparr>newEntry := (newEntry s)\<lparr>location := value\<rparr>\<rparr> in
      if length value > 2 then
        (case fetchSuggestions fetch value of
           (fx, Inr fetched) \<Rightarrow> (fx, s1\<lparr>suggestions := fetched\<rparr>)
         | (fx, Inl error) \<Rightarrow> (fx @ [ConsoleError], s1))
      else ([], s1\<lparr>suggestions := []\<rparr>))"

text \<open>
  The \<open>onloadend\<close> callback of \<open>handleImageUpload\<close>, lines 104 to 107; \<open>reader.result\<close> is
  null when the file could not be read.
\<close>

definition handleImageUpload_onloadend :: "string option \<Rightarrow> journal \<Rightarrow> journal" where
  "handleImageUpload_onloadend base64String s = s\<lparr>newEntry := (newEntry s)\<lparr>image' := base64String\<rparr>\<rparr>"

text \<open>\<open>resetForm\<close>, lines 132 to 144.\<close>

definition resetForm :: "journal \<Rightarrow> journal" where
  "resetForm s =
     s\<lparr>newEntry :=
         \<lparr>title = [], date = [], location = [], notes' = [], image' = None, video = None,
          id' = None\<rparr>,
       suggestions := [],
       editMode := False,
       editIndex := None\<rparr>"

text \<open>
  \<open>handleSubmit\<close>, lines 112 to 130; \<open>now\<close> is the value of \<open>Date.now()\<close>. The callback of
  \<open>entries.map\<close> gets each element with its index.
\<close>

definition handleSubmit :: "int \<Rightarrow> journal \<Rightarrow> effect list \<times> journal" where
  "handleSubmit now s =
     (if title (newEntry s) = [] \<or> date (newEntry s) = [] \<or> location (newEntry s) = []
      then ([PreventDefault, Alert], s)
      else if editMode s \<and> editIndex s \<noteq> None then
        (let updatedEntries =
               map (\<lambda>(index, entry). if Some (int index) = editIndex s then newEntry s else entry)
                 (enumerate 0 (entries s))
         in ([PreventDefault], resetForm (setEntries updatedEntries s)))
      else
        ([PreventDefault], resetForm (setEntries (entries s @ [(newEntry s)\<lparr>id' := Some now\<rparr>]) s)))"

text \<open>
  Where an event leaves the component. \<open>Ok s\<close>: the state is \<open>s\<close>. \<open>NewEntryUndefined s\<close>:
  the state is \<open>s\<close> except for the form state, which is \<open>undefined\<close> (the field \<open>newEntry\<close>
  of \<open>s\<close> says nothing); what the next render does with it is up to \<open>EntryForm\<close>, which is
  not part of this file. \<open>EffectThrew e s\<close>: the handler left the state \<open>s\<close>, and the effect
  after the render threw \<open>e\<close> without changing the storage.
\<close>

datatype outcome =
  Ok journal
| NewEntryUndefined journal
| EffectThrew js_error journal

text \<open>
  \<open>handleEditEntry\<close>, lines 146 to 150. The three setters run for every index; outside the
  list \<open>entries[index]\<close> is \<open>undefined\<close>, and that is what \<open>setNewEntry\<close> gets.
\<close>

definition handleEditEntry :: "int \<Rightarrow> journal \<Rightarrow> outcome" where
  "handleEditEntry index s =
     (if 0 \<le> index \<and> index < int (length (entries s))
      then Ok (s\<lparr>editMode := True, editIndex := Some index, newEntry := entries s ! nat index\<rparr>)
      else NewEntryUndefined (s\<lparr>editMode := True, editIndex := Some index\<rparr>))"

text \<open>\<open>handleDeleteEntry\<close>, lines 152 to 159; \<open>confirmed\<close> is the answer of \<open>window.confirm\<close>.\<close>

definition handleDeleteEntry :: "bool \<Rightarrow> int \<Rightarrow> journal \<Rightarrow> journal" where
  "handleDeleteEntry confirmed index s =
     (if confirmed then
        (let updatedEntries = map snd (filter (\<lambda>(i, _). int i \<noteq> index) (enumerate 0 (entries s)))
         in setEntries updatedEntries s)
      else s)"

subsection \<open>Rendering\<close>

text \<open>
  What the component returns, by the element at the top and the properties it is given:
  \<open>renderAuthForm\<close> (lines 162 to 197) shows the \<open>AuthForm\<close> or the two buttons,
  \<open>renderMainContent\<close> (lines 200 to 221) the header, the \<open>EntryForm\<close> and the \<open>EntryList\<close>.
\<close>

datatype authBody = AuthForm (isLogin: bool) | LoginSignUpButtons

datatype view =
  AuthScreen authBody
| MainContent (headerEmail: string) (formNewEntry: entry) (formEditMode: bool)
    (formSuggestions: "Suggestion list") (listEntries: "entry list")

definition renderAuthForm :: "journal \<Rightarrow> view" where
  "renderAuthForm s =
     AuthScreen (if isLoginPage s \<or> isSignUpPage s then AuthForm (isLoginPage s)
                 else LoginSignUpButtons)"

definition renderMainContent :: "journal \<Rightarrow> view" where
  "renderMainContent s =
     MainContent
       (case user s of
          None \<Rightarrow> []
        | Some u \<Rightarrow> if email u \<noteq> [] then email u else [])
       (newEntry s) (editMode s) (suggestions s) (entries s)"

text \<open>The \<open>return\<close> of \<open>TravelJournal\<close>, line 223.\<close>

definition TravelJournal :: "journal \<Rightarrow> view" where
  "TravelJournal s = (case user s of Some u \<Rightarrow> renderMainContent s | None \<Rightarrow> renderAuthForm s)"

subsection \<open>Events\<close>

text \<open>
  Every callback the component defines or hands to a child, as one event type: the handlers
  above, \<open>onEntryChange\<close> (\<open>setNewEntry\<close>), \<open>onSelectLocation\<close>, the two buttons of the
  authentication screen and \<open>onClose\<close> of the \<open>AuthForm\<close>.
\<close>

datatype event =
  Logout
| AuthSuccess User
| LocationChange string
| ImageLoaded "string option"
| Submit int
| EditEntry int
| DeleteEntry bool int
| EntryChange entry
| SelectLocation Suggestion
| ShowLogin
| ShowSignUp
| CloseAuth

fun handle :: "fetch_env \<Rightarrow> event \<Rightarrow> journal \<Rightarrow> outcome" where
  "handle fetch Logout s = Ok (handleLogout s)"
| "handle fetch (AuthSuccess userData) s = Ok (handleAuthSuccess userData s)"
| "handle fetch (LocationChange value) s = Ok (snd (handleLocationChange fetch value s))"
| "handle fetch (ImageLoaded r) s = Ok (handleImageUpload_onloadend r s)"
| "handle fetch (Submit now) s = Ok (snd (handleSubmit now s))"
| "handle fetch (EditEntry index) s = handleEditEntry index s"
| "handle fetch (DeleteEntry confirmed index) s = Ok (handleDeleteEntry confirmed index s)"
| "handle fetch (EntryChange e) s = Ok (s\<lparr>newEntry := e\<rparr>)"
| "handle fetch (SelectLocation place) s =
     Ok (s\<lparr>newEntry := (newEntry s)\<lparr>location := description place\<rparr>\<rparr>)"
| "handle fetch ShowLogin s = Ok (s\<lparr>isLoginPage := True\<rparr>)"
| "handle fetch ShowSignUp s = Ok (s\<lparr>isSignUpPage := True\<rparr>)"
| "handle fetch CloseAuth s = Ok (s\<lparr>isLoginPage := False, isSignUpPage := False\<rparr>)"

text \<open>
  An event, the render it causes, and the effect after that render. With the form state
  undefined the entries array is still the one of the render before, so the effect has
  nothing to do, whether or not that render succeeds.
\<close>

definition dispatch ::
  "bool \<Rightarrow> quota \<Rightarrow> fetch_env \<Rightarrow> (entry list \<Rightarrow> string) \<Rightarrow> event \<Rightarrow> journal \<Rightarrow> outcome" where
  "dispatch hasWindow withinQuota fetch JSON_stringify ev s =
     (case handle fetch ev s of
        Ok s1 \<Rightarrow>
          (case useEffect_update hasWindow withinQuota JSON_stringify s s1 of
             Inl e \<Rightarrow> EffectThrew e s1
           | Inr s2 \<Rightarrow> Ok s2)
      | other \<Rightarrow> other)"

section \<open>JSON\<close>

text \<open>
  Modelled from the spec: \<open>JSON.stringify\<close> and \<open>JSON.parse\<close> are the platform's and not in the
  repository, and the spec says only that the entries are serialised on change. The two
  functions below follow the ECMAScript definition of JSON (\<open>JSON.stringify\<close> without
  replacer and indentation, \<open>JSON.parse\<close> without reviver), within the conventions of the
  model: characters are the code units up to 255, numbers are integers. Where a text needs
  more than that, \<open>JSON_parse_text\<close> answers \<open>Unmodelled\<close>, which says nothing about the platform.
\<close>

subsection \<open>Values\<close>

text \<open>
  An object is the list of its members in the order of their creation. A text may repeat a
  key; the members are kept as written, and reading a key takes its last occurrence, as
  the platform's object keeps the last value.
\<close>

datatype json =
  JNull
| JBool bool
| JNumber int
| JString string
| JArray "json list"
| JObject "(string \<times> json) list"

subsection \<open>\<open>JSON.stringify\<close>\<close>

text \<open>
  \<open>QuoteJSONString\<close>: the quotation mark (0x22) and the backslash (0x5C) get a backslash,
  backspace, tab, line feed, form feed and carriage return their letter, every other code
  unit below 0x20 a backslash, the letter u, two zeros and its two hexadecimal digits in
  lower case; the rest stands for itself.
\<close>

definition hex_digit :: "nat \<Rightarrow> char" where
  "hex_digit d = (if d < 10 then char_of (48 + d) else char_of (87 + d))"

definition quote_char :: "char \<Rightarrow> string" where
  "quote_char c =
     (if c = CHR 0x08 then [CHR 0x5C, CHR ''b'']
      else if c = CHR 0x09 then [CHR 0x5C, CHR ''t'']
      else if c = CHR 0x0A then [CHR 0x5C, CHR ''n'']
      else if c = CHR 0x0C then [CHR 0x5C, CHR ''f'']
      else if c = CHR 0x0D then [CHR 0x5C, CHR ''r'']
      else if c = CHR 0x22 then [CHR 0x5C, CHR 0x22]
      else if c = CHR 0x5C then [CHR 0x5C, CHR 0x5C]
      else if (of_char c :: nat) < 32
        then [CHR 0x5C, CHR ''u'', CHR ''0'', CHR ''0'',
              hex_digit (of_char c div 16), hex_digit (of_char c mod 16)]
      else [c])"

definition QuoteJSONString :: "string \<Rightarrow> string" where
  "QuoteJSONString s = [CHR 0x22] @ concat (map quote_char s) @ [CHR 0x22]"

text \<open>
  An integer in decimal digits, as \<open>Number::toString\<close> writes the integers of fewer than
  22 digits, which every value of \<open>Date.now()\<close> is.
\<close>

fun show_nat :: "nat \<Rightarrow> string" where
  "show_nat n =
     (if n < 10 then [char_of (48 + n)]
      else show_nat (n div 10) @ [char_of (48 + n mod 10)])"

declare show_nat.simps [simp del]

definition show_int :: "int \<Rightarrow> string" where
  "show_int i = (if i < 0 then CHR ''-'' # show_nat (nat (- i)) else show_nat (nat i))"

fun join_commas :: "string list \<Rightarrow> string" where
  "join_commas [] = []"
| "join_commas [x] = x"
| "join_commas (x # y # ys) = x @ CHR '','' # join_commas (y # ys)"

fun JSON_stringify_value :: "json \<Rightarrow> string" where
  "JSON_stringify_value JNull = ''null''"
| "JSON_stringify_value (JBool b) = (if b then ''true'' else ''false'')"
| "JSON_stringify_value (JNumber n) = show_int n"
| "JSON_stringify_value (JString s) = QuoteJSONString s"
| "JSON_stringify_value (JArray vs) = CHR ''['' # join_commas (map JSON_stringify_value vs) @ '']''"
| "JSON_stringify_value (JObject ms) =
     CHR ''{'' #
     join_commas (map (\<lambda>(k, v). QuoteJSONString k @ CHR '':'' # JSON_stringify_value v) ms) @ ''}''"

subsection \<open>\<open>JSON.parse\<close>\<close>

text \<open>White space between the tokens: space, tab, line feed, carriage return.\<close>

definition is_ws :: "char \<Rightarrow> bool" where
  "is_ws c \<longleftrightarrow> c = CHR 0x20 \<or> c = CHR 0x09 \<or> c = CHR 0x0A \<or> c = CHR 0x0D"

definition skip_ws :: "string \<Rightarrow> string" where
  "skip_ws = dropWhile is_ws"

definition is_digit :: "char \<Rightarrow> bool" where
  "is_digit c \<longleftrightarrow> (48::nat) \<le> of_char c \<and> (of_char c :: nat) \<le> 57"

definition digit_val :: "char \<Rightarrow> nat" where
  "digit_val c = of_char c - 48"

definition read_nat :: "string \<Rightarrow> nat" where
  "read_nat ds = foldl (\<lambda>a c. 10 * a + digit_val c) 0 ds"

definition hex_val :: "char \<Rightarrow> nat option" where
  "hex_val c =
     (let n = (of_char c :: nat) in
      if 48 \<le> n \<and> n \<le> 57 then Some (n - 48)
      else if 97 \<le> n \<and> n \<le> 102 then Some (n - 87)
      else if 65 \<le> n \<and> n \<le> 70 then Some (n - 55)
      else None)"

text \<open>The character after a backslash, other than \<open>u\<close>.\<close>

definition unescape :: "char \<Rightarrow> char option" where
  "unescape e =
     (if e = CHR 0x22 then Some (CHR 0x22)
      else if e = CHR 0x5C then Some (CHR 0x5C)
      else if e = CHR ''/'' then Some (CHR ''/'')
      else if e = CHR ''b'' then Some (CHR 0x08)
      else if e = CHR ''f'' then Some (CHR 0x0C)
      else if e = CHR ''n'' then Some (CHR 0x0A)
      else if e = CHR ''r'' then Some (CHR 0x0D)
      else if e = CHR ''t'' then Some (CHR 0x09)
      else None)"

definition cons_char :: "char \<Rightarrow> js_error + string \<times> string \<Rightarrow> js_error + string \<times> string" where
  "cons_char c r = (case r of Inl e \<Rightarrow> Inl e | Inr (s, rest) \<Rightarrow> Inr (c # s, rest))"

text \<open>
  The characters of a string after its opening quotation mark, up to the closing one, and
  the text after it. A code unit below 0x20 must be escaped.
\<close>

fun parse_chars :: "string \<Rightarrow> js_error + string \<times> string" where
  "parse_chars [] = Inl SyntaxError"
| "parse_chars (c # cs) =
     (if c = CHR 0x22 then Inr ([], cs)
      else if c = CHR 0x5C then
        (case cs of
           [] \<Rightarrow> Inl SyntaxError
         | e # cs1 \<Rightarrow>
             if e = CHR ''u'' then
               (case cs1 of
                  h1 # h2 # h3 # h4 # cs2 \<Rightarrow>
                    (case (hex_val h1, hex_val h2, hex_val h3, hex_val h4) of
                       (Some a, Some b, Some x, Some y) \<Rightarrow>
                         if a = 0 \<and> b = 0 then cons_char (char_of (16 * x + y)) (parse_chars cs2)
                         else Inl Unmodelled
                     | _ \<Rightarrow> Inl SyntaxError)
                | _ \<Rightarrow> Inl SyntaxError)
             else
               (case unescape e of
                  None \<Rightarrow> Inl SyntaxError
                | Some u \<Rightarrow> cons_char u (parse_chars cs1)))
      else if (of_char c :: nat) < 32 then Inl SyntaxError
      else cons_char c (parse_chars cs))"

text \<open>
  A number: an optional minus, then digits without a leading zero. A fraction or an
  exponent after the digits makes a number that is no integer of the model.
\<close>

definition parse_digits :: "bool \<Rightarrow> string \<Rightarrow> js_error + json \<times> string" where
  "parse_digits neg cs =
     (let ds = takeWhile is_digit cs;
          rest = dropWhile is_digit cs;
          n = (if neg then - int (read_nat ds) else int (read_nat ds))
      in if ds = [] then Inl SyntaxError
         else if hd ds = CHR ''0'' \<and> length ds > 1 then Inl SyntaxError
         else (case rest of
                 [] \<Rightarrow> Inr (JNumber n, rest)
               | c # r \<Rightarrow>
                   if c = CHR ''.'' \<or> c = CHR ''e'' \<or> c = CHR ''E'' then Inl Unmodelled
                   else Inr (JNumber n, rest)))"

definition parse_number :: "string \<Rightarrow> js_error + json \<times> string" where
  "parse_number cs =
     (case cs of
        [] \<Rightarrow> Inl SyntaxError
      | c # r \<Rightarrow> if c = CHR ''-'' then parse_digits True r else parse_digits False cs)"

text \<open>
  A value, the elements of an array after its bracket, and the members of an object after
  its brace, each with the text that follows. The first argument bounds the number of
  calls. \<open>JSON_parse_text\<close> gives twice the length of the text and one, which is enough
  for every text that \<open>JSON_stringify_value\<close> writes (\<open>parse_value_round_trip\<close> below); a
  parse that should ever use the bound up answers \<open>Unmodelled\<close>.
\<close>

fun parse_value :: "nat \<Rightarrow> string \<Rightarrow> js_error + json \<times> string"
  and parse_elements :: "nat \<Rightarrow> string \<Rightarrow> js_error + json list \<times> string"
  and parse_members :: "nat \<Rightarrow> string \<Rightarrow> js_error + (string \<times> json) list \<times> string"
where
  "parse_value 0 cs = Inl Unmodelled"
| "parse_value (Suc n) cs =
     (case skip_ws cs of
        [] \<Rightarrow> Inl SyntaxError
      | c # cs1 \<Rightarrow>
          if c = CHR 0x22 then
            (case parse_chars cs1 of Inl e \<Rightarrow> Inl e | Inr (s, r) \<Rightarrow> Inr (JString s, r))
          else if c = CHR ''['' then
            (case skip_ws cs1 of
               [] \<Rightarrow> Inl SyntaxError
             | d # r \<Rightarrow>
                 if d = CHR '']'' then Inr (JArray [], r)
                 else
                   (case parse_elements n cs1 of
                      Inl e \<Rightarrow> Inl e
                    | Inr (vs, r1) \<Rightarrow> Inr (JArray vs, r1)))
          else if c = CHR ''{'' then
            (case skip_ws cs1 of
               [] \<Rightarrow> Inl SyntaxError
             | d # r \<Rightarrow>
                 if d = CHR ''}'' then Inr (JObject [], r)
                 else
                   (case parse_members n cs1 of
                      Inl e \<Rightarrow> Inl e
                    | Inr (ms, r1) \<Rightarrow> Inr (JObject ms, r1)))
          else if take 4 (c # cs1) = ''null'' then Inr (JNull, drop 3 cs1)
          else if take 4 (c # cs1) = ''true'' then Inr (JBool True, drop 3 cs1)
          else if take 5 (c # cs1) = ''false'' then Inr (JBool False, drop 4 cs1)
          else if c = CHR ''-'' \<or> is_digit c then parse_number (c # cs1)
          else Inl SyntaxError)"
| "parse_elements 0 cs = Inl Unmodelled"
| "parse_elements (Suc n) cs =
     (case parse_value n cs of
        Inl e \<Rightarrow> Inl e
      | Inr (v, r) \<Rightarrow>
          (case skip_ws r of
             [] \<Rightarrow> Inl SyntaxError
           | d # r1 \<Rightarrow>
               if d = CHR '']'' then Inr ([v], r1)
               else if d = CHR '','' then
                 (case parse_elements n r1 of
                    Inl e \<Rightarrow> Inl e
                  | Inr (vs, r2) \<Rightarrow> Inr (v # vs, r2))
               else Inl SyntaxError))"
| "parse_members 0 cs = Inl Unmodelled"
| "parse_members (Suc n) cs =
     (case skip_ws cs of
        [] \<Rightarrow> Inl SyntaxError
      | q # cs1 \<Rightarrow>
          if q \<noteq> CHR 0x22 then Inl SyntaxError
          else
            (case parse_chars cs1 of
               Inl e \<Rightarrow> Inl e
             | Inr (k, r) \<Rightarrow>
                 (case skip_ws r of
                    [] \<Rightarrow> Inl SyntaxError
                  | colon # r1 \<Rightarrow>
                      if colon \<noteq> CHR '':'' then Inl SyntaxError
                      else
                        (case parse_value n r1 of
                           Inl e \<Rightarrow> Inl e
                         | Inr (v, r2) \<Rightarrow>
                             (case skip_ws r2 of
                                [] \<Rightarrow> Inl SyntaxError
                              | d # r3 \<Rightarrow>
                                  if d = CHR ''}'' then Inr ([(k, v)], r3)
                                  else if d = CHR '','' then
                                    (case parse_members n r3 of
                                       Inl e \<Rightarrow> Inl e
                                     | Inr (ms, r4) \<Rightarrow> Inr ((k, v) # ms, r4))
                                  else Inl SyntaxError)))))"

definition JSON_parse_text :: "string \<Rightarrow> js_error + json" where
  "JSON_parse_text text =
     (case parse_value (2 * length text + 1) text of
        Inl e \<Rightarrow> Inl e
      | Inr (v, rest) \<Rightarrow> if skip_ws rest = [] then Inr v else Inl SyntaxError)"

subsection \<open>The entries as JSON values\<close>

text \<open>
  The object of an entry has its properties in the order in which the component creates
  them: the six of the form state (lines 56 to 63; the spreads keep the order) and \<open>id\<close>,
  which \<open>handleSubmit\<close> adds last.
\<close>

definition json_of_nullable :: "string option \<Rightarrow> json" where
  "json_of_nullable x = (case x of None \<Rightarrow> JNull | Some s \<Rightarrow> JString s)"

definition json_of_entry :: "entry \<Rightarrow> json" where
  "json_of_entry e =
     JObject
       ([(''title'', JString (title e)), (''date'', JString (date e)),
         (''location'', JString (location e)), (''notes'', JString (notes' e)),
         (''image'', json_of_nullable (image' e)), (''video'', json_of_nullable (video e))]
        @ (case id' e of None \<Rightarrow> [] | Some n \<Rightarrow> [(''id'', JNumber n)]))"

text \<open>\<open>JSON.stringify(entries)\<close>, line 70.\<close>

definition JSON_stringify_entries :: "entry list \<Rightarrow> string" where
  "JSON_stringify_entries es = JSON_stringify_value (JArray (map json_of_entry es))"

text \<open>
  Reading a value at the declared type of the entries: an array of objects with the four
  strings, the two strings-or-null, the optional integer \<open>id\<close> and no other property.
\<close>

definition member :: "(string \<times> json) list \<Rightarrow> string \<Rightarrow> json option" where
  "member ms k = map_of (rev ms) k"

definition string_of_json :: "json option \<Rightarrow> string option" where
  "string_of_json x = (case x of Some (JString s) \<Rightarrow> Some s | _ \<Rightarrow> None)"

definition nullable_of_json :: "json option \<Rightarrow> string option option" where
  "nullable_of_json x =
     (case x of Some JNull \<Rightarrow> Some None | Some (JString s) \<Rightarrow> Some (Some s) | _ \<Rightarrow> None)"

definition optional_int_of_json :: "json option \<Rightarrow> int option option" where
  "optional_int_of_json x =
     (case x of None \<Rightarrow> Some None | Some (JNumber n) \<Rightarrow> Some (Some n) | _ \<Rightarrow> None)"

definition entry_of_json :: "json \<Rightarrow> entry option" where
  "entry_of_json v =
     (case v of
        JObject ms \<Rightarrow>
          if list_all (\<lambda>k. k \<in> set [''title'', ''date'', ''location'', ''notes'', ''image'',
                                     ''video'', ''id'']) (map fst ms)
          then
            (case (string_of_json (member ms ''title''), string_of_json (member ms ''date''),
                   string_of_json (member ms ''location''), string_of_json (member ms ''notes''),
                   nullable_of_json (member ms ''image''), nullable_of_json (member ms ''video''),
                   optional_int_of_json (member ms ''id'')) of
               (Some t, Some d, Some l, Some n, Some i, Some w, Some k) \<Rightarrow>
                 Some \<lparr>title = t, date = d, location = l, notes' = n, image' = i, video = w,
                       id' = k\<rparr>
             | _ \<Rightarrow> None)
          else None
      | _ \<Rightarrow> None)"

definition entries_of_json :: "json \<Rightarrow> entry list option" where
  "entries_of_json v = (case v of JArray vs \<Rightarrow> those (map entry_of_json vs) | _ \<Rightarrow> None)"

text \<open>
  \<open>JSON.parse(savedEntries)\<close>, line 31, read at the declared type; a text for a value of
  another type has no value in the model.
\<close>

definition JSON_parse_entries :: "string \<Rightarrow> js_error + entry list" where
  "JSON_parse_entries text =
     (case JSON_parse_text text of
        Inl e \<Rightarrow> Inl e
      | Inr v \<Rightarrow> (case entries_of_json v of None \<Rightarrow> Inl Unmodelled | Some es \<Rightarrow> Inr es))"

subsection \<open>Shapes of text\<close>

text \<open>What may follow a number, what a value may start with, and the text of one member.\<close>

definition number_end :: "string \<Rightarrow> bool" where
  "number_end rest \<longleftrightarrow>
     (case rest of
        [] \<Rightarrow> True
      | c # r \<Rightarrow> c = CHR '','' \<or> c = CHR '']'' \<or> c = CHR ''}'')"

definition value_start :: "char \<Rightarrow> bool" where
  "value_start c \<longleftrightarrow> \<not> is_ws c \<and> c \<noteq> CHR '']'' \<and> c \<noteq> CHR ''}''"

definition member_text :: "string \<times> json \<Rightarrow> string" where
  "member_text m = QuoteJSONString (fst m) @ CHR '':'' # JSON_stringify_value (snd m)"

section \<open>Examples\<close>

subsection \<open>Example values\<close>

text \<open>Concrete entries, a suggestion, a logged-in state and two answers of the endpoint.\<close>

definition paris :: entry where
  "paris =
     \<lparr>title = ''Paris'', date = ''2024-03-01'', location = ''Paris, France'',
      notes' = ''Louvre'', image' = None, video = None, id' = Some 1700000000000\<rparr>"

definition rome :: entry where
  "rome =
     \<lparr>title = ''Rome'', date = ''2024-03-09'', location = ''Rome, Italy'',
      notes' = [], image' = Some ''data:image/png;base64,AAAA'', video = None,
      id' = Some 1700000000500\<rparr>"

definition kyoto :: entry where
  "kyoto =
     \<lparr>title = ''Kyoto'', date = ''2024-04-01'', location = ''Kyoto'',
      notes' = ''Temples'', image' = None, video = None, id' = None\<rparr>"

definition kyotoSuggestion :: Suggestion where
  "kyotoSuggestion = \<lparr>place_id = 7, description = ''Kyoto, Japan''\<rparr>"

definition exampleState :: journal where
  "exampleState =
     \<lparr>isLoginPage = False, isSignUpPage = False, user = Some \<lparr>email = ''a@b.example''\<rparr>,
      entries = [paris, rome], entriesObj = 4, newEntry = kyoto, editMode = False,
      editIndex = None, suggestions = [kyotoSuggestion],
      localStorage = [''user'' \<mapsto> ''u'', ''journalEntries'' \<mapsto> ''e'']\<rparr>"

definition fetch_ok :: fetch_env where
  "fetch_ok url = Inr (Response True (Inr [kyotoSuggestion]))"

definition fetch_down :: fetch_env where
  "fetch_down url = Inr (Response False (Inl SyntaxError))"

text \<open>
  The example state with the storage as the effect leaves it, and a browser that admits at
  most 300 code units under the key of the entries.
\<close>

definition persistedState :: journal where
  "persistedState =
     exampleState\<lparr>localStorage :=
       [''user'' \<mapsto> ''u'', ''journalEntries'' \<mapsto> JSON_stringify_entries [paris, rome]]\<rparr>"

definition smallQuota :: quota where
  "smallQuota storage =
     (case storage ''journalEntries'' of None \<Rightarrow> True | Some text \<Rightarrow> length text \<le> 300)"

lemmas example_defs = paris_def rome_def kyoto_def kyotoSuggestion_def exampleState_def

section \<open>Properties\<close>

subsection \<open>Lists with their indices\<close>

text \<open>
  \<open>map\<close> and \<open>filter\<close> with a callback that looks only at the index are the list update and
  the removal of one position; an index outside the list removes nothing.
\<close>

lemma enumerate_map_update:
  "map (\<lambda>(index, entry). if index = i then v else entry) (enumerate 0 xs) = xs[i := v]"
  by (auto simp: list_eq_iff_nth_eq nth_enumerate_eq nth_list_update)

lemma filter_enumerate_outside:
  "index < int k \<or> int k + int (length xs) \<le> index \<Longrightarrow>
   map snd (filter (\<lambda>(i, _). int i \<noteq> index) (enumerate k xs)) = xs"
  by (induction xs arbitrary: k) auto

lemma filter_enumerate_inside:
  "int k \<le> index \<Longrightarrow> index < int k + int (length xs) \<Longrightarrow>
   map snd (filter (\<lambda>(i, _). int i \<noteq> index) (enumerate k xs)) =
   take (nat index - k) xs @ drop (Suc (nat index - k)) xs"
proof (induction xs arbitrary: k)
  case Nil
  then show ?case by simp
next
  case (Cons x xs)
  show ?case
  proof (cases "index = int k")
    case True
    then have "map snd (filter (\<lambda>(i, _). int i \<noteq> index) (enumerate (Suc k) xs)) = xs"
      by (intro filter_enumerate_outside) simp
    with True show ?thesis by simp
  next
    case False
    with Cons.prems have lo: "int (Suc k) \<le> index" and hi: "index < int (Suc k) + int (length xs)"
      by simp_all
    from lo have "nat index - k = Suc (nat index - Suc k)" by linarith
    with False Cons.IH [OF lo hi] show ?thesis by simp
  qed
qed

subsection \<open>The three paths of \<open>handleSubmit\<close>\<close>

lemma handleSubmit_invalid:
  "title (newEntry s) = [] \<or> date (newEntry s) = [] \<or> location (newEntry s) = [] \<Longrightarrow>
   handleSubmit now s = ([PreventDefault, Alert], s)"
  by (simp add: handleSubmit_def)

lemma handleSubmit_create:
  assumes "title (newEntry s) \<noteq> []" and "date (newEntry s) \<noteq> []"
    and "location (newEntry s) \<noteq> []"
    and "\<not> (editMode s \<and> editIndex s \<noteq> None)"
  shows "handleSubmit now s =
     ([PreventDefault], resetForm (setEntries (entries s @ [(newEntry s)\<lparr>id' := Some now\<rparr>]) s))"
  using assms by (auto simp add: handleSubmit_def)

lemma handleSubmit_edit:
  assumes "title (newEntry s) \<noteq> []" and "date (newEntry s) \<noteq> []"
    and "location (newEntry s) \<noteq> []"
    and "editMode s" and "editIndex s = Some (int i)"
  shows "handleSubmit now s =
     ([PreventDefault], resetForm (setEntries ((entries s)[i := newEntry s]) s))"
  using assms by (simp add: handleSubmit_def enumerate_map_update)

lemma entries_resetForm [simp]: "entries (resetForm s) = entries s"
  by (simp add: resetForm_def)

lemma entries_setEntries [simp]: "entries (setEntries es s) = es"
  by (simp add: setEntries_def)

lemma handleDeleteEntry_outside:
  "index < 0 \<or> int (length (entries s)) \<le> index \<Longrightarrow>
   entries (handleDeleteEntry confirmed index s) = entries s"
  using filter_enumerate_outside [of index 0 "entries s"]
  by (simp add: handleDeleteEntry_def)

subsection \<open>Parsing what \<open>JSON.stringify\<close> wrote\<close>

text \<open>
  Strings and numbers first, then lists of elements and of members, then values by
  induction: \<open>JSON_parse_text\<close> reads every text of \<open>JSON_stringify_value\<close> back to the value it
  was written from, and the bound on the calls is never reached on the way.
\<close>


lemma hex_val_hex_digit: "d < 16 \<Longrightarrow> hex_val (hex_digit d) = Some d"
  by (auto simp: hex_val_def hex_digit_def Let_def)

lemma hex_val_zero: "hex_val (CHR ''0'') = Some 0"
  by (simp add: hex_val_def)

lemma char_of_div_mod: "char_of (16 * ((of_char c :: nat) div 16) + of_char c mod 16) = c"
  by simp

lemma parse_chars_quote_char:
  "parse_chars (quote_char c @ cs) = cons_char c (parse_chars cs)"
proof -
  consider (special) "c \<in> {CHR 0x08, CHR 0x09, CHR 0x0A, CHR 0x0C, CHR 0x0D, CHR 0x22, CHR 0x5C}"
    | (control) "c \<notin> {CHR 0x08, CHR 0x09, CHR 0x0A, CHR 0x0C, CHR 0x0D, CHR 0x22, CHR 0x5C}"
        "(of_char c :: nat) < 32"
    | (plain) "c \<notin> {CHR 0x08, CHR 0x09, CHR 0x0A, CHR 0x0C, CHR 0x0D, CHR 0x22, CHR 0x5C}"
        "\<not> (of_char c :: nat) < 32"
    by blast
  then show ?thesis
  proof cases
    case special
    then show ?thesis by (auto simp: quote_char_def unescape_def)
  next
    case control
    then have d: "(of_char c :: nat) div 16 < 16" "(of_char c :: nat) mod 16 < 16" by simp_all
    from control show ?thesis
      by (simp add: quote_char_def hex_val_zero hex_val_hex_digit [OF d(1)] hex_val_hex_digit [OF d(2)])
  next
    case plain
    then show ?thesis by (simp add: quote_char_def)
  qed
qed

lemma parse_chars_quoted:
  "parse_chars (concat (map quote_char s) @ CHR 0x22 # rest) = Inr (s, rest)"
  by (induction s) (simp_all add: parse_chars_quote_char cons_char_def)

lemma show_nat_not_Nil: "show_nat n \<noteq> []"
  by (subst show_nat.simps) simp

lemma is_digit_char_of: "(d::nat) < 10 \<Longrightarrow> is_digit (char_of (48 + d))"
  by (simp add: is_digit_def)

lemma digit_val_char_of: "(d::nat) < 10 \<Longrightarrow> digit_val (char_of (48 + d)) = d"
  by (simp add: digit_val_def)

lemma show_nat_digits: "c \<in> set (show_nat n) \<Longrightarrow> is_digit c"
proof (induction n arbitrary: c rule: show_nat.induct)
  case (1 n)
  show ?case
  proof (cases "n < 10")
    case True
    then have "show_nat n = [char_of (48 + n)]"
      by (subst show_nat.simps) simp
    with True "1.prems" show ?thesis
      by (simp add: is_digit_char_of)
  next
    case False
    then have "show_nat n = show_nat (n div 10) @ [char_of (48 + n mod 10)]"
      by (subst show_nat.simps) simp
    with "1.prems" have "c \<in> set (show_nat (n div 10)) \<or> c = char_of (48 + n mod 10)"
      by auto
    with False "1.IH" show ?thesis
      by (auto simp: is_digit_char_of)
  qed
qed

lemma read_nat_snoc: "read_nat (ds @ [c]) = 10 * read_nat ds + digit_val c"
  by (simp add: read_nat_def)

lemma read_nat_show_nat: "read_nat (show_nat n) = n"
proof (induction n rule: show_nat.induct)
  case (1 n)
  show ?case
  proof (cases "n < 10")
    case True
    then show ?thesis
      by (subst show_nat.simps) (simp add: read_nat_def digit_val_char_of)
  next
    case False
    with "1.IH" show ?thesis
      by (subst show_nat.simps) (simp add: read_nat_snoc digit_val_char_of)
  qed
qed

lemma show_nat_leading_zero: "hd (show_nat n) = CHR ''0'' \<Longrightarrow> length (show_nat n) = 1"
proof (induction n rule: show_nat.induct)
  case (1 n)
  show ?case
  proof (cases "n < 10")
    case True
    then show ?thesis by (subst show_nat.simps) simp
  next
    case False
    then have n: "show_nat n = show_nat (n div 10) @ [char_of (48 + n mod 10)]"
      by (subst show_nat.simps) simp
    with "1.prems" have "hd (show_nat (n div 10)) = CHR ''0''"
      by (simp add: show_nat_not_Nil)
    with False "1.IH" have one: "length (show_nat (n div 10)) = 1" by simp
    then obtain c where c: "show_nat (n div 10) = [c]"
      by (cases "show_nat (n div 10)") auto
    with \<open>hd (show_nat (n div 10)) = CHR ''0''\<close> have "show_nat (n div 10) = ''0''" by simp
    then have "read_nat (show_nat (n div 10)) = 0" by (simp add: read_nat_def digit_val_def)
    then have "n div 10 = 0" by (simp add: read_nat_show_nat)
    with False show ?thesis by simp
  qed
qed

lemma number_end_no_digit: "number_end rest \<Longrightarrow> takeWhile is_digit rest = []"
  by (auto simp: number_end_def is_digit_def split: list.splits)

lemma takeWhile_digits:
  assumes "number_end rest"
  shows "takeWhile is_digit (show_nat n @ rest) = show_nat n"
    and "dropWhile is_digit (show_nat n @ rest) = rest"
proof -
  have all: "\<forall>c \<in> set (show_nat n). is_digit c"
    by (simp add: show_nat_digits)
  from assms have none: "takeWhile is_digit rest = []"
    by (rule number_end_no_digit)
  from all none show "takeWhile is_digit (show_nat n @ rest) = show_nat n"
    by (simp add: takeWhile_append2)
  from none have "dropWhile is_digit rest = rest"
    by (metis append_Nil takeWhile_dropWhile_id)
  with all show "dropWhile is_digit (show_nat n @ rest) = rest"
    by (simp add: dropWhile_append2)
qed

lemma hd_show_nat_not_minus: "hd (show_nat n) \<noteq> CHR ''-''"
proof -
  have "hd (show_nat n) \<in> set (show_nat n)" by (simp add: show_nat_not_Nil)
  then have "is_digit (hd (show_nat n))" by (rule show_nat_digits)
  then show ?thesis by (auto simp: is_digit_def)
qed

lemma parse_digits_show_nat:
  assumes "number_end rest"
  shows "parse_digits neg (show_nat n @ rest) = Inr (JNumber (if neg then - int n else int n), rest)"
proof -
  have nz: "\<not> (hd (show_nat n) = CHR ''0'' \<and> length (show_nat n) > 1)"
    using show_nat_leading_zero [of n] by auto
  from assms nz show ?thesis
    by (auto simp: parse_digits_def takeWhile_digits show_nat_not_Nil read_nat_show_nat
        number_end_def Let_def split: list.splits)
qed

lemma parse_number_show_int:
  assumes "number_end rest"
  shows "parse_number (show_int i @ rest) = Inr (JNumber i, rest)"
proof (cases "i < 0")
  case True
  with parse_digits_show_nat [OF assms, of True "nat (- i)"] show ?thesis
    by (simp add: parse_number_def show_int_def)
next
  case False
  obtain c r where cr: "show_nat (nat i) = c # r"
    using show_nat_not_Nil [of "nat i"] by (cases "show_nat (nat i)") auto
  with hd_show_nat_not_minus [of "nat i"] have c: "c \<noteq> CHR ''-''" by simp
  from parse_digits_show_nat [OF assms, of False "nat i"] False cr c show ?thesis
    by (simp add: parse_number_def show_int_def)
qed

lemma skip_ws_Cons: "\<not> is_ws c \<Longrightarrow> skip_ws (c # cs) = c # cs"
  by (simp add: skip_ws_def)

lemma hd_show_int: "hd (show_int i) = CHR ''-'' \<or> is_digit (hd (show_int i))"
proof -
  have "\<And>n. is_digit (hd (show_nat n))"
    using show_nat_digits show_nat_not_Nil by (metis list.set_sel(1))
  then show ?thesis by (simp add: show_int_def)
qed

lemma show_int_Cons: "\<exists>c cs. show_int i = c # cs \<and> (c = CHR ''-'' \<or> is_digit c)"
  using hd_show_int [of i] show_nat_not_Nil
  by (cases "show_int i") (auto simp: show_int_def split: if_splits)

lemma JSON_stringify_value_Cons: "\<exists>c cs. JSON_stringify_value v = c # cs \<and> value_start c"
proof (cases v)
  case (JNumber i)
  obtain c cs where "show_int i = c # cs" "c = CHR ''-'' \<or> is_digit c"
    using show_int_Cons by blast
  with JNumber show ?thesis
    by (auto simp: value_start_def is_ws_def is_digit_def)
qed (auto simp: value_start_def is_ws_def QuoteJSONString_def)

lemma member_text_eq: "(\<lambda>(k, v). QuoteJSONString k @ CHR '':'' # JSON_stringify_value v) = member_text"
  by (auto simp: fun_eq_iff member_text_def)

lemma JSON_stringify_value_JObject:
  "JSON_stringify_value (JObject ms) = CHR ''{'' # join_commas (map member_text ms) @ ''}''"
  by (simp add: member_text_eq)

lemma number_end_simps [simp]:
  "number_end []" "number_end (CHR '','' # r)" "number_end (CHR '']'' # r)" "number_end (CHR ''}'' # r)"
  by (simp_all add: number_end_def)

lemma not_ws_simps [simp]:
  "\<not> is_ws (CHR '','')" "\<not> is_ws (CHR '']'')" "\<not> is_ws (CHR ''}'')" "\<not> is_ws (CHR '':'')"
  "\<not> is_ws (CHR 0x22)"
  by (simp_all add: is_ws_def)

lemma parse_elements_round_trip:
  assumes IH: "\<And>v n rest. v \<in> set vs \<Longrightarrow> 2 * length (JSON_stringify_value v @ rest) < n \<Longrightarrow>
             number_end rest \<Longrightarrow> parse_value n (JSON_stringify_value v @ rest) = Inr (v, rest)"
    and "vs \<noteq> []"
    and "2 * length (join_commas (map JSON_stringify_value vs) @ CHR '']'' # rest) + 1 < n"
  shows "parse_elements n (join_commas (map JSON_stringify_value vs) @ CHR '']'' # rest) = Inr (vs, rest)"
  using assms
proof (induction vs arbitrary: n)
  case Nil
  then show ?case by simp
next
  case (Cons v vs)
  from Cons.prems(3) obtain k where n: "n = Suc k" by (cases n) auto
  show ?case
  proof (cases vs)
    case Nil
    from Cons.prems(3) n Nil have "2 * length (JSON_stringify_value v @ CHR '']'' # rest) < k" by simp
    then have "parse_value k (JSON_stringify_value v @ CHR '']'' # rest) = Inr (v, CHR '']'' # rest)"
      by (intro Cons.prems(1)) simp_all
    with n Nil show ?thesis by (simp add: skip_ws_Cons)
  next
    case (Cons w ws)
    let ?tail = "join_commas (map JSON_stringify_value vs) @ CHR '']'' # rest"
    from Cons have eq: "join_commas (map JSON_stringify_value (v # vs)) @ CHR '']'' # rest
        = JSON_stringify_value v @ CHR '','' # ?tail" by simp
    from Cons.prems(3) n eq have "2 * length (JSON_stringify_value v @ CHR '','' # ?tail) < k" by simp
    then have v: "parse_value k (JSON_stringify_value v @ CHR '','' # ?tail) = Inr (v, CHR '','' # ?tail)"
      by (intro Cons.prems(1)) simp_all
    from Cons.prems(3) n eq have "2 * length ?tail + 1 < k" by simp
    with Cons.prems(1) Cons have "parse_elements k ?tail = Inr (vs, rest)"
      by (intro Cons.IH) simp_all
    with v n eq show ?thesis by (simp add: skip_ws_Cons)
  qed
qed

lemma parse_members_round_trip:
  assumes IH: "\<And>m n rest. m \<in> set ms \<Longrightarrow> 2 * length (JSON_stringify_value (snd m) @ rest) < n \<Longrightarrow>
             number_end rest \<Longrightarrow> parse_value n (JSON_stringify_value (snd m) @ rest) = Inr (snd m, rest)"
    and "ms \<noteq> []"
    and "2 * length (join_commas (map member_text ms) @ CHR ''}'' # rest) + 1 < n"
  shows "parse_members n (join_commas (map member_text ms) @ CHR ''}'' # rest) = Inr (ms, rest)"
  using assms
proof (induction ms arbitrary: n)
  case Nil
  then show ?case by simp
next
  case (Cons m ms)
  from Cons.prems(3) obtain k where n: "n = Suc k" by (cases n) auto
  obtain key v where m: "m = (key, v)" by (cases m)
  have key: "\<And>r. parse_chars (concat (map quote_char key) @ CHR 0x22 # r) = Inr (key, r)"
    by (rule parse_chars_quoted)
  show ?case
  proof (cases ms)
    case Nil
    from Cons.prems(3) n Nil m have "2 * length (JSON_stringify_value (snd m) @ CHR ''}'' # rest) < k"
      by (simp add: member_text_def)
    then have "parse_value k (JSON_stringify_value (snd m) @ CHR ''}'' # rest) = Inr (snd m, CHR ''}'' # rest)"
      by (intro Cons.prems(1)) simp_all
    then have v': "parse_value k (JSON_stringify_value v @ CHR ''}'' # rest) = Inr (v, CHR ''}'' # rest)"
      using m by simp
    have full: "join_commas (map member_text (m # ms)) @ CHR ''}'' # rest
        = CHR 0x22 # concat (map quote_char key) @ CHR 0x22 # CHR '':'' # JSON_stringify_value v @ CHR ''}'' # rest"
      using Nil m by (simp add: member_text_def QuoteJSONString_def)
    show ?thesis
      unfolding full n using v' key m Nil by (simp add: skip_ws_Cons)
  next
    case (Cons w ws)
    let ?tail = "join_commas (map member_text ms) @ CHR ''}'' # rest"
    from Cons have eq: "join_commas (map member_text (m # ms)) @ CHR ''}'' # rest
        = member_text m @ CHR '','' # ?tail" by simp
    have "length (member_text m) \<ge> length (JSON_stringify_value (snd m))"
      by (simp add: member_text_def)
    moreover from eq have "length (join_commas (map member_text (m # ms)) @ CHR ''}'' # rest)
        = length (member_text m) + 1 + length ?tail"
      by simp
    ultimately have "2 * length (JSON_stringify_value (snd m) @ CHR '','' # ?tail) < k"
      using Cons.prems(3) n by simp
    then have v: "parse_value k (JSON_stringify_value (snd m) @ CHR '','' # ?tail) = Inr (snd m, CHR '','' # ?tail)"
      by (intro Cons.prems(1)) simp_all
    from eq have "length (join_commas (map member_text (m # ms)) @ CHR ''}'' # rest)
        = length (member_text m) + 1 + length ?tail"
      by simp
    with Cons.prems(3) n have "2 * length ?tail + 1 < k" by simp
    with Cons.prems(1) Cons have "parse_members k ?tail = Inr (ms, rest)"
      by (intro Cons.IH) simp_all
    then have tl: "parse_members k ?tail = Inr (ms, rest)" .
    have mt: "member_text m = CHR 0x22 # concat (map quote_char key) @ CHR 0x22 # CHR '':'' # JSON_stringify_value v"
      by (simp add: m member_text_def QuoteJSONString_def)
    have full: "join_commas (map member_text (m # ms)) @ CHR ''}'' # rest
        = CHR 0x22 # concat (map quote_char key) @ CHR 0x22 # CHR '':'' # JSON_stringify_value v @ CHR '','' # ?tail"
      using eq mt by simp
    from v m have v': "parse_value k (JSON_stringify_value v @ CHR '','' # ?tail) = Inr (v, CHR '','' # ?tail)"
      by simp
    show ?thesis
      unfolding full n using v' tl key m by (simp add: skip_ws_Cons)
  qed
qed

lemma parse_value_round_trip:
  "2 * length (JSON_stringify_value v @ rest) < n \<Longrightarrow> number_end rest \<Longrightarrow>
   parse_value n (JSON_stringify_value v @ rest) = Inr (v, rest)"
proof (induction v arbitrary: n rest)
  case JNull
  then obtain k where "n = Suc k" by (cases n) auto
  then show ?case by (simp add: skip_ws_def is_ws_def)
next
  case (JBool b)
  then obtain k where "n = Suc k" by (cases n) auto
  then show ?case by (cases b) (simp_all add: skip_ws_def is_ws_def)
next
  case (JNumber i)
  then obtain k where n: "n = Suc k" by (cases n) auto
  obtain c cs where c: "show_int i = c # cs" "c = CHR ''-'' \<or> is_digit c"
    using show_int_Cons by blast
  then have nw: "\<not> is_ws c" "c \<noteq> CHR 0x22" "c \<noteq> CHR ''[''" "c \<noteq> CHR ''{''"
    "c \<noteq> CHR ''n''" "c \<noteq> CHR ''t''" "c \<noteq> CHR ''f''"
    by (auto simp: is_ws_def is_digit_def)
  from parse_number_show_int [OF JNumber.prems(2), of i] c
  have "parse_number (c # cs @ rest) = Inr (JNumber i, rest)" by simp
  with n c nw show ?case by (simp add: skip_ws_Cons)
next
  case (JString s)
  then obtain k where "n = Suc k" by (cases n) auto
  then show ?case by (simp add: QuoteJSONString_def skip_ws_Cons parse_chars_quoted)
next
  case (JArray vs)
  then obtain k where n: "n = Suc k" by (cases n) auto
  show ?case
  proof (cases vs)
    case Nil
    with n show ?thesis by (simp add: skip_ws_def is_ws_def)
  next
    case (Cons w ws)
    let ?body = "join_commas (map JSON_stringify_value vs) @ CHR '']'' # rest"
    obtain c cs where c: "JSON_stringify_value w = c # cs" "value_start c"
      using JSON_stringify_value_Cons by blast
    with Cons obtain cs' where body: "?body = c # cs'"
      by (cases ws) auto
    from c have c': "\<not> is_ws c" "c \<noteq> CHR '']''" by (simp_all add: value_start_def)
    from JArray.prems(1) n have "2 * length ?body + 1 < k" by simp
    with JArray.IH Cons have "parse_elements k ?body = Inr (vs, rest)"
      by (intro parse_elements_round_trip) simp_all
    moreover have "JSON_stringify_value (JArray vs) @ rest = CHR ''['' # ?body" by simp
    ultimately show ?thesis
      using n body c' by (simp add: skip_ws_def is_ws_def)
  qed
next
  case (JObject ms)
  then obtain k where n: "n = Suc k" by (cases n) auto
  show ?case
  proof (cases ms)
    case Nil
    with n show ?thesis by (simp add: skip_ws_def is_ws_def)
  next
    case (Cons w ws)
    let ?body = "join_commas (map member_text ms) @ CHR ''}'' # rest"
    have "\<exists>cs. member_text w = CHR 0x22 # cs"
      by (simp add: member_text_def QuoteJSONString_def)
    with Cons obtain cs' where body: "?body = CHR 0x22 # cs'"
      by (cases ws) auto
    have full: "JSON_stringify_value (JObject ms) @ rest = CHR ''{'' # ?body"
      by (simp add: member_text_eq)
    with JObject.prems(1) n have "2 * length ?body + 1 < k" by simp
    moreover have "\<And>m n rest. m \<in> set ms \<Longrightarrow> 2 * length (JSON_stringify_value (snd m) @ rest) < n \<Longrightarrow>
             number_end rest \<Longrightarrow> parse_value n (JSON_stringify_value (snd m) @ rest) = Inr (snd m, rest)"
    proof -
      fix m :: "string \<times> json" and n rest
      assume "m \<in> set ms" and "2 * length (JSON_stringify_value (snd m) @ rest) < n" and "number_end rest"
      moreover have "snd m \<in> Basic_BNFs.snds m" by (cases m) simp
      ultimately show "parse_value n (JSON_stringify_value (snd m) @ rest) = Inr (snd m, rest)"
        by (intro JObject.IH)
    qed
    ultimately have "parse_members k ?body = Inr (ms, rest)"
      using Cons by (intro parse_members_round_trip) simp_all
    then show ?thesis
      unfolding full n using body by (simp add: skip_ws_def is_ws_def)
  qed
qed

lemma JSON_parse_text_stringify: "JSON_parse_text (JSON_stringify_value v) = Inr v"
  using parse_value_round_trip [of v "[]" "2 * length (JSON_stringify_value v) + 1"]
  by (simp add: JSON_parse_text_def skip_ws_def)

text \<open>The entries: reading at the declared type undoes the writing.\<close>

lemma entry_of_json_of_entry: "entry_of_json (json_of_entry e) = Some e"
  by (cases "id' e"; cases "image' e"; cases "video e")
    (simp_all add: entry_of_json_def json_of_entry_def member_def string_of_json_def
      nullable_of_json_def optional_int_of_json_def json_of_nullable_def)

lemma entries_of_json_of_entries: "entries_of_json (JArray (map json_of_entry es)) = Some es"
  by (induction es) (simp_all add: entries_of_json_def entry_of_json_of_entry)

lemma JSON_parse_entries_stringify: "JSON_parse_entries (JSON_stringify_entries es) = Inr es"
  by (simp only: JSON_parse_entries_def JSON_stringify_entries_def JSON_parse_text_stringify
      entries_of_json_of_entries sum.case option.case)

lemma JSON_stringify_entries_not_empty: "JSON_stringify_entries es \<noteq> []"
  by (simp add: JSON_stringify_entries_def)

lemma JSON_stringify_entries_inj:
  "JSON_stringify_entries es = JSON_stringify_entries es' \<Longrightarrow> es = es'"
  by (metis JSON_parse_entries_stringify sum.inject(2))

subsection \<open>Concrete texts\<close>

text \<open>
  What the two functions give on concrete values and texts, to be held against the
  platform: the text of an entry, the escapes of a string (quotation mark, line feed, the
  code unit 1, backslash; the slash and 0x7F stand for themselves), a text with white space
  and nesting, a text of entries with another order of the keys and a repeated key, and
  the three ways in which a text is not read.
\<close>

lemma show_int_timestamp: "show_int 1700000009000 = ''1700000009000''"
  by (simp add: show_int_def show_nat.simps char_of_eq_iff)

lemma JSON_stringify_entries_kyoto:
  \<open>JSON_stringify_entries [kyoto\<lparr>id' := Some 1700000009000\<rparr>] =
   ''[{"title":"Kyoto","date":"2024-04-01","location":"Kyoto","notes":"Temples","image":null,"video":null,"id":1700000009000}]''\<close>
  by (simp add: JSON_stringify_entries_def json_of_entry_def json_of_nullable_def
      QuoteJSONString_def quote_char_def show_int_timestamp kyoto_def)

lemma JSON_stringify_entries_initial:
  \<open>JSON_stringify_entries [initialNewEntry\<lparr>image' := Some ''data:,''\<rparr>] =
   ''[{"title":"","date":"","location":"","notes":"","image":"data:,","video":null}]''\<close>
  by (simp add: JSON_stringify_entries_def json_of_entry_def json_of_nullable_def
      QuoteJSONString_def quote_char_def initialNewEntry_def)

lemma JSON_stringify_value_escapes:
  "JSON_stringify_value (JString [CHR 0x22, CHR 0x0A, CHR 0x01, CHR 0x5C, CHR 0x2F, CHR 0x7F]) =
   [CHR 0x22, CHR 0x5C, CHR 0x22, CHR 0x5C, CHR ''n'', CHR 0x5C, CHR ''u'', CHR ''0'', CHR ''0'',
    CHR ''0'', CHR ''1'', CHR 0x5C, CHR 0x5C, CHR 0x2F, CHR 0x7F, CHR 0x22]"
  by code_simp

lemma JSON_parse_text_nested:
  \<open>JSON_parse_text '' [ {"a" : [1, null, -20]} , true ] '' =
   Inr (JArray [JObject [(''a'', JArray [JNumber 1, JNull, JNumber (- 20)])], JBool True])\<close>
  by code_simp

lemma JSON_parse_entries_reordered:
  \<open>JSON_parse_entries
     ''[ {"id":5,"video":null,"image":"x","notes":"","location":"L","date":"D","title":"T","date":"E"}]'' =
   Inr [\<lparr>title = ''T'', date = ''E'', location = ''L'', notes' = [], image' = Some ''x'',
         video = None, id' = Some 5\<rparr>]\<close>
  by code_simp

lemma JSON_parse_entries_not_read:
  \<open>JSON_parse_entries ''[{"title":"T"},]'' = Inl SyntaxError\<close>
  \<open>JSON_parse_entries ''[{"title":"T"}]'' = Inl Unmodelled\<close>
  \<open>JSON_parse_entries ''[1.5]'' = Inl Unmodelled\<close>
  by code_simp+

subsection \<open>Events and the effect\<close>

text \<open>
  Only \<open>setEntries\<close> changes the entries, and it always installs a new array: an event that
  changes the list changes the identity the effect looks at, and leaves the storage to the
  effect.
\<close>

lemma handle_entries_changed:
  assumes "handle fetch ev s = Ok s1" and "entries s1 \<noteq> entries s"
  shows "entriesObj s1 \<noteq> entriesObj s" and "localStorage s1 = localStorage s"
  using assms
  by (cases ev;
      auto simp: handleLogout_def handleAuthSuccess_def handleLocationChange_def Let_def
        handleImageUpload_onloadend_def handleSubmit_def handleEditEntry_def handleDeleteEntry_def
        resetForm_def setEntries_def
        split: if_splits prod.splits sum.splits)+

lemma handle_NewEntryUndefined:
  "handle fetch ev s = NewEntryUndefined s1 \<longleftrightarrow>
   (\<exists>index. ev = EditEntry index \<and> \<not> (0 \<le> index \<and> index < int (length (entries s)))
      \<and> s1 = s\<lparr>editMode := True, editIndex := Some index\<rparr>)"
  by (cases ev) (auto simp: handleEditEntry_def)

lemma handle_not_EffectThrew: "handle fetch ev s \<noteq> EffectThrew e s1"
  by (cases ev) (auto simp: handleEditEntry_def)

lemma entries_persistEntries:
  "persistEntries hasWindow withinQuota JSON_stringify s = Inr s' \<Longrightarrow> entries s' = entries s"
  by (auto simp: persistEntries_def split: if_splits sum.splits)

lemma persistEntries_within_quota:
  assumes "withinQuota ((localStorage s)(''journalEntries'' \<mapsto> JSON_stringify (entries s)))"
  shows "persistEntries True withinQuota JSON_stringify s =
     Inr (s\<lparr>localStorage := (localStorage s)(''journalEntries'' \<mapsto> JSON_stringify (entries s))\<rparr>)"
  using assms by (simp add: persistEntries_def setItem_def)

lemma persistEntries_over_quota:
  assumes "\<not> withinQuota ((localStorage s)(''journalEntries'' \<mapsto> JSON_stringify (entries s)))"
  shows "persistEntries True withinQuota JSON_stringify s = Inl QuotaExceededError"
  using assms by (simp add: persistEntries_def setItem_def)

text \<open>The first render stores the list as well, and a reload starts from the stored list.\<close>

lemma useEffect_mount_stores:
  assumes "useEffect_mount True withinQuota JSON_stringify s = Inr s'"
  shows "localStorage s' ''journalEntries'' = Some (JSON_stringify (entries s))"
  using assms by (auto simp: useEffect_mount_def persistEntries_def setItem_def split: if_splits)

lemma initialState_entries:
  assumes "initialState hasWindow parseUser parseEntries storage = Inr s"
  shows "loadSavedEntries hasWindow parseEntries storage = Inr (entries s)"
  using assms by (auto simp: initialState_def split: sum.splits)

subsection \<open>The location input\<close>

lemma handleLocationChange_location:
  "location (newEntry (snd (handleLocationChange fetch value s))) = value"
  by (simp add: handleLocationChange_def Let_def split: prod.splits sum.splits)

lemma fst_fetchSuggestions:
  "fst (fetchSuggestions fetch query) =
   [Fetch (''https://api.example.com/suggestions?query='' @ query)]"
  by (simp add: fetchSuggestions_def Let_def split: sum.splits)

lemma handleLocationChange_long:
  "length value > 2 \<Longrightarrow>
   handleLocationChange fetch value s =
     (case snd (fetchSuggestions fetch value) of
        Inr fetched \<Rightarrow>
          ([Fetch (''https://api.example.com/suggestions?query='' @ value)],
           s\<lparr>newEntry := (newEntry s)\<lparr>location := value\<rparr>, suggestions := fetched\<rparr>)
      | Inl error \<Rightarrow>
          ([Fetch (''https://api.example.com/suggestions?query='' @ value), ConsoleError],
           s\<lparr>newEntry := (newEntry s)\<lparr>location := value\<rparr>\<rparr>))"
  using fst_fetchSuggestions [of fetch "value"]
  by (cases "fetchSuggestions fetch value") (simp add: handleLocationChange_def split: sum.splits)

section \<open>The claims\<close>

text \<open>
  C1, as the code has it. Entries are persisted via serialize-on-change, as far as the
  storage takes the write. After an event that changes the entries list, the effect runs
  \<open>localStorage.setItem\<close> with \<open>JSON.stringify\<close> of the new list. When the browser's quota
  admits the write, the key \<open>journalEntries\<close> holds exactly that text, and
  \<open>loadSavedEntries\<close> on the storage returns a list equal to the current entries list.
  When it does not, \<open>setItem\<close> throws \<open>QuotaExceededError\<close>, which nothing catches, and the
  key keeps what it held before the change.
\<close>

theorem entries_persisted_on_change:
  assumes "handle fetch ev s = Ok s1" and "entries s1 \<noteq> entries s"
  shows "(withinQuota ((localStorage s)(''journalEntries'' \<mapsto> JSON_stringify_entries (entries s1))) \<longrightarrow>
          (\<exists>s'. dispatch True withinQuota fetch JSON_stringify_entries ev s = Ok s'
             \<and> entries s' = entries s1
             \<and> localStorage s' ''journalEntries'' = Some (JSON_stringify_entries (entries s'))
             \<and> loadSavedEntries True JSON_parse_entries (localStorage s') = Inr (entries s')))
       \<and> (\<not> withinQuota ((localStorage s)(''journalEntries'' \<mapsto> JSON_stringify_entries (entries s1))) \<longrightarrow>
            dispatch True withinQuota fetch JSON_stringify_entries ev s
              = EffectThrew QuotaExceededError s1
          \<and> localStorage s1 ''journalEntries'' = localStorage s ''journalEntries'')"
proof (intro conjI impI)
  from assms have obj: "entriesObj s1 \<noteq> entriesObj s" and st: "localStorage s1 = localStorage s"
    by (rule handle_entries_changed)+
  let ?text = "JSON_stringify_entries (entries s1)"
  let ?s' = "s1\<lparr>localStorage := (localStorage s1)(''journalEntries'' \<mapsto> ?text)\<rparr>"
  {
    assume "withinQuota ((localStorage s)(''journalEntries'' \<mapsto> ?text))"
    with st have "persistEntries True withinQuota JSON_stringify_entries s1 = Inr ?s'"
      by (intro persistEntries_within_quota) simp
    with assms(1) obj have d: "dispatch True withinQuota fetch JSON_stringify_entries ev s = Ok ?s'"
      by (simp add: dispatch_def useEffect_update_def)
    have "loadSavedEntries True JSON_parse_entries (localStorage ?s') = Inr (entries ?s')"
      by (simp add: loadSavedEntries_def JSON_stringify_entries_not_empty
          JSON_parse_entries_stringify)
    with d show "\<exists>s'. dispatch True withinQuota fetch JSON_stringify_entries ev s = Ok s'
             \<and> entries s' = entries s1
             \<and> localStorage s' ''journalEntries'' = Some (JSON_stringify_entries (entries s'))
             \<and> loadSavedEntries True JSON_parse_entries (localStorage s') = Inr (entries s')"
      by (intro exI [of _ ?s']) simp
  }
  {
    assume "\<not> withinQuota ((localStorage s)(''journalEntries'' \<mapsto> ?text))"
    with st have "persistEntries True withinQuota JSON_stringify_entries s1 = Inl QuotaExceededError"
      by (intro persistEntries_over_quota) simp
    with assms(1) obj
    show "dispatch True withinQuota fetch JSON_stringify_entries ev s = EffectThrew QuotaExceededError s1"
      by (simp add: dispatch_def useEffect_update_def)
    from st show "localStorage s1 ''journalEntries'' = localStorage s ''journalEntries''"
      by simp
  }
qed

text \<open>
  Submitting the form of the example state in a browser with room: the list grows to
  three entries, and the storage holds its text and gives it back.
\<close>

theorem entries_persisted_on_change_witness:
  "handle fetch_ok (Submit 1700000009000) persistedState
     = Ok (snd (handleSubmit 1700000009000 persistedState))
   \<and> entries (snd (handleSubmit 1700000009000 persistedState))
       = [paris, rome, kyoto\<lparr>id' := Some 1700000009000\<rparr>]
   \<and> entries (snd (handleSubmit 1700000009000 persistedState)) \<noteq> entries persistedState
   \<and> (\<exists>s'. dispatch True (\<lambda>storage. True) fetch_ok JSON_stringify_entries
              (Submit 1700000009000) persistedState = Ok s'
         \<and> entries s' = [paris, rome, kyoto\<lparr>id' := Some 1700000009000\<rparr>]
         \<and> localStorage s' ''journalEntries''
             = Some (JSON_stringify_entries [paris, rome, kyoto\<lparr>id' := Some 1700000009000\<rparr>])
         \<and> loadSavedEntries True JSON_parse_entries (localStorage s')
             = Inr [paris, rome, kyoto\<lparr>id' := Some 1700000009000\<rparr>])"
proof -
  let ?s1 = "snd (handleSubmit 1700000009000 persistedState)"
  have h: "handle fetch_ok (Submit 1700000009000) persistedState = Ok ?s1"
    by simp
  have es: "entries ?s1 = [paris, rome, kyoto\<lparr>id' := Some 1700000009000\<rparr>]"
    by (simp add: handleSubmit_def resetForm_def setEntries_def persistedState_def example_defs)
  have c: "entries ?s1 \<noteq> entries persistedState"
    by (simp add: es) (simp add: persistedState_def exampleState_def)
  from entries_persisted_on_change [OF h c, of "\<lambda>storage. True"]
  obtain s' where "dispatch True (\<lambda>storage. True) fetch_ok JSON_stringify_entries
        (Submit 1700000009000) persistedState = Ok s'"
    and "entries s' = entries ?s1"
    and "localStorage s' ''journalEntries'' = Some (JSON_stringify_entries (entries s'))"
    and "loadSavedEntries True JSON_parse_entries (localStorage s') = Inr (entries s')"
    by blast
  with es have "\<exists>s'. dispatch True (\<lambda>storage. True) fetch_ok JSON_stringify_entries
              (Submit 1700000009000) persistedState = Ok s'
         \<and> entries s' = [paris, rome, kyoto\<lparr>id' := Some 1700000009000\<rparr>]
         \<and> localStorage s' ''journalEntries''
             = Some (JSON_stringify_entries [paris, rome, kyoto\<lparr>id' := Some 1700000009000\<rparr>])
         \<and> loadSavedEntries True JSON_parse_entries (localStorage s')
             = Inr [paris, rome, kyoto\<lparr>id' := Some 1700000009000\<rparr>]"
    by (intro exI [of _ s']) simp
  with h es c show ?thesis by blast
qed

text \<open>
  C1, as the claim has it, holds after every change. In a browser that admits 300 code
  units under the key, the text of the two entries of the example state fits. Submitting
  the form changes the list, the write of the longer text throws, and the key still holds
  the text of the two entries, which is not the text of the three.
\<close>

theorem entries_not_persisted_over_quota:
  "smallQuota (localStorage persistedState)
   \<and> dispatch True smallQuota fetch_ok JSON_stringify_entries (Submit 1700000009000) persistedState
     = EffectThrew QuotaExceededError (snd (handleSubmit 1700000009000 persistedState))
   \<and> entries (snd (handleSubmit 1700000009000 persistedState))
       = [paris, rome, kyoto\<lparr>id' := Some 1700000009000\<rparr>]
   \<and> localStorage (snd (handleSubmit 1700000009000 persistedState)) ''journalEntries''
       = Some (JSON_stringify_entries [paris, rome])
   \<and> JSON_stringify_entries [paris, rome]
       \<noteq> JSON_stringify_entries [paris, rome, kyoto\<lparr>id' := Some 1700000009000\<rparr>]"
proof -
  let ?s1 = "snd (handleSubmit 1700000009000 persistedState)"
  have es: "entries ?s1 = [paris, rome, kyoto\<lparr>id' := Some 1700000009000\<rparr>]"
    by (simp add: handleSubmit_def resetForm_def setEntries_def persistedState_def example_defs)
  have obj: "entriesObj ?s1 \<noteq> entriesObj persistedState"
    by (simp add: handleSubmit_def resetForm_def setEntries_def persistedState_def example_defs)
  have st: "localStorage ?s1 = localStorage persistedState"
    by (simp add: handleSubmit_def resetForm_def setEntries_def persistedState_def example_defs)
  have long: "length (JSON_stringify_entries [paris, rome, kyoto\<lparr>id' := Some 1700000009000\<rparr>]) > 300"
    by (simp add: JSON_stringify_entries_def json_of_entry_def json_of_nullable_def
        QuoteJSONString_def quote_char_def show_int_def show_nat.simps example_defs)
  then have "\<not> smallQuota ((localStorage ?s1)(''journalEntries'' \<mapsto> JSON_stringify_entries (entries ?s1)))"
    by (simp add: smallQuota_def es)
  then have "persistEntries True smallQuota JSON_stringify_entries ?s1 = Inl QuotaExceededError"
    by (rule persistEntries_over_quota)
  with obj have d: "dispatch True smallQuota fetch_ok JSON_stringify_entries (Submit 1700000009000)
      persistedState = EffectThrew QuotaExceededError ?s1"
    by (simp add: dispatch_def useEffect_update_def)
  have old: "localStorage ?s1 ''journalEntries'' = Some (JSON_stringify_entries [paris, rome])"
    by (simp add: st) (simp add: persistedState_def)
  have ne: "JSON_stringify_entries [paris, rome]
       \<noteq> JSON_stringify_entries [paris, rome, kyoto\<lparr>id' := Some 1700000009000\<rparr>]"
    using JSON_stringify_entries_inj by fastforce
  have short: "length (JSON_stringify_entries [paris, rome]) \<le> 300"
    by (simp add: JSON_stringify_entries_def json_of_entry_def json_of_nullable_def
        QuoteJSONString_def quote_char_def show_int_def show_nat.simps example_defs)
  then have fits: "smallQuota (localStorage persistedState)"
    by (simp add: smallQuota_def persistedState_def)
  from fits d es old ne show ?thesis by simp
qed

text \<open>
  C2, as the code has it. With \<open>editMode\<close> false and title, date and location not empty,
  \<open>handleSubmit\<close> gives the old list with one entry appended at the end: \<open>newEntry\<close> with
  its \<open>id\<close> set to the reading of \<open>Date.now()\<close>. Every entry that was there keeps its value
  and its position. The identifier is the clock reading and is compared with nothing: it
  differs from the identifiers in the list when no entry there carries that reading.
\<close>

theorem handleSubmit_create_appends:
  assumes "\<not> editMode s"
    and "title (newEntry s) \<noteq> []" and "date (newEntry s) \<noteq> []" and "location (newEntry s) \<noteq> []"
  shows "entries (snd (handleSubmit now s)) = entries s @ [(newEntry s)\<lparr>id' := Some now\<rparr>]
       \<and> (\<forall>j < length (entries s). entries (snd (handleSubmit now s)) ! j = entries s ! j)
       \<and> (Some now \<notin> set (map id' (entries s)) \<longrightarrow>
            id' (last (entries (snd (handleSubmit now s)))) \<notin> set (map id' (entries s)))"
  using assms by (simp add: handleSubmit_create nth_append)

theorem handleSubmit_create_appends_witness:
  "\<not> editMode exampleState \<and> title (newEntry exampleState) \<noteq> []
   \<and> date (newEntry exampleState) \<noteq> [] \<and> location (newEntry exampleState) \<noteq> []
   \<and> entries (snd (handleSubmit 1700000009000 exampleState))
       = [paris, rome, kyoto\<lparr>id' := Some 1700000009000\<rparr>]
   \<and> Some 1700000009000 \<notin> set (map id' (entries exampleState))
   \<and> id' (last (entries (snd (handleSubmit 1700000009000 exampleState))))
       \<notin> set (map id' (entries exampleState))"
proof -
  have h: "\<not> editMode exampleState" "title (newEntry exampleState) \<noteq> []"
    "date (newEntry exampleState) \<noteq> []" "location (newEntry exampleState) \<noteq> []"
    by (simp_all add: example_defs)
  have fresh: "Some 1700000009000 \<notin> set (map id' (entries exampleState))"
    by (simp add: example_defs)
  have es: "entries exampleState = [paris, rome]" "newEntry exampleState = kyoto"
    by (simp_all add: exampleState_def)
  from handleSubmit_create_appends [OF h, of 1700000009000] h fresh es show ?thesis
    by simp
qed

text \<open>
  C2, as the claim has it, asks for a fresh identifier. When the clock reads
  1700000000000, the \<open>id\<close> of the first entry of the example state, the appended entry gets
  the identifier that entry already has.
\<close>

theorem handleSubmit_id_not_fresh:
  "\<not> editMode exampleState \<and> title (newEntry exampleState) \<noteq> []
   \<and> date (newEntry exampleState) \<noteq> [] \<and> location (newEntry exampleState) \<noteq> []
   \<and> id' (last (entries (snd (handleSubmit 1700000000000 exampleState))))
       = id' (hd (entries exampleState))"
  by (simp add: handleSubmit_def resetForm_def setEntries_def example_defs)

text \<open>
  C3. Editing changes only the indexed entry. With \<open>editMode\<close> true, \<open>editIndex\<close> a valid
  index \<open>i\<close> and title, date and location not empty, \<open>handleSubmit\<close> puts \<open>newEntry\<close> at
  index \<open>i\<close>; the entries at the other indices and the length of the list stay as they were.
\<close>

theorem handleSubmit_edit_replaces_index:
  assumes "editMode s" and "editIndex s = Some (int i)" and "i < length (entries s)"
    and "title (newEntry s) \<noteq> []" and "date (newEntry s) \<noteq> []" and "location (newEntry s) \<noteq> []"
  shows "entries (snd (handleSubmit now s)) = (entries s)[i := newEntry s]
       \<and> entries (snd (handleSubmit now s)) ! i = newEntry s
       \<and> (\<forall>j < length (entries s). j \<noteq> i \<longrightarrow> entries (snd (handleSubmit now s)) ! j = entries s ! j)
       \<and> length (entries (snd (handleSubmit now s))) = length (entries s)"
  using assms by (simp add: handleSubmit_edit)

theorem handleSubmit_edit_replaces_index_witness:
  "editMode (exampleState\<lparr>editMode := True, editIndex := Some 1\<rparr>)
   \<and> editIndex (exampleState\<lparr>editMode := True, editIndex := Some 1\<rparr>) = Some (int 1)
   \<and> 1 < length (entries (exampleState\<lparr>editMode := True, editIndex := Some 1\<rparr>))
   \<and> entries (snd (handleSubmit 1700000009000 (exampleState\<lparr>editMode := True, editIndex := Some 1\<rparr>)))
       = [paris, kyoto]"
proof -
  let ?s = "exampleState\<lparr>editMode := True, editIndex := Some 1\<rparr>"
  have h: "editMode ?s" "editIndex ?s = Some (int 1)" "1 < length (entries ?s)"
    "title (newEntry ?s) \<noteq> []" "date (newEntry ?s) \<noteq> []" "location (newEntry ?s) \<noteq> []"
    by (simp_all add: example_defs)
  have es: "entries ?s = [paris, rome]" "newEntry ?s = kyoto"
    by (simp_all add: exampleState_def)
  from handleSubmit_edit_replaces_index [OF h, of 1700000009000] h es show ?thesis
    by simp
qed

text \<open>
  C4. Deletion removes exactly the indexed entry. For a list of length \<open>n\<close> and an index
  \<open>i\<close> of that list, \<open>handleDeleteEntry\<close>, when the user confirms, gives the list without its
  element at \<open>i\<close>: the length is \<open>n - 1\<close>, the entries before \<open>i\<close> stay where they were and
  the ones after \<open>i\<close> move down by one, in their order. (A number that is no index of the
  list removes nothing: \<open>handleDeleteEntry_outside\<close>.)
\<close>

theorem handleDeleteEntry_removes_index:
  assumes "i < length (entries s)"
  shows "entries (handleDeleteEntry True (int i) s) = take i (entries s) @ drop (Suc i) (entries s)
       \<and> length (entries (handleDeleteEntry True (int i) s)) = length (entries s) - 1
       \<and> (\<forall>j < length (entries s) - 1.
            entries (handleDeleteEntry True (int i) s) ! j = entries s ! (if j < i then j else Suc j))"
proof -
  have eq: "entries (handleDeleteEntry True (int i) s) = take i (entries s) @ drop (Suc i) (entries s)"
    using assms filter_enumerate_inside [of 0 "int i" "entries s"]
    by (simp add: handleDeleteEntry_def)
  have len: "length (take i (entries s) @ drop (Suc i) (entries s)) = length (entries s) - 1"
    using assms by simp
  have nth: "(take i (entries s) @ drop (Suc i) (entries s)) ! j = entries s ! (if j < i then j else Suc j)"
    if "j < length (entries s) - 1" for j
    using that assms by (auto simp: nth_append min_def)
  from eq len nth show ?thesis by simp
qed

theorem handleDeleteEntry_removes_index_witness:
  "0 < length (entries exampleState) \<and> entries (handleDeleteEntry True (int 0) exampleState) = [rome]"
proof -
  have h: "0 < length (entries exampleState)" by (simp add: exampleState_def)
  have es: "entries exampleState = [paris, rome]" by (simp add: exampleState_def)
  from handleDeleteEntry_removes_index [OF h] h es show ?thesis by simp
qed

text \<open>
  C5. Title, date and location are required; image and video are not. When the title, the
  date or the location of \<open>newEntry\<close> is empty, \<open>handleSubmit\<close> shows the alert and returns the
  state it was given: entries, \<open>editMode\<close>, \<open>editIndex\<close>, the form fields and everything else
  are unchanged. When the three are not empty the submission goes through, with no alert
  and a new entries array, whatever the image and the video are, null included.
\<close>

theorem handleSubmit_required_fields:
  "(title (newEntry s) = [] \<or> date (newEntry s) = [] \<or> location (newEntry s) = [] \<longrightarrow>
      handleSubmit now s = ([PreventDefault, Alert], s))
   \<and> (title (newEntry s) \<noteq> [] \<and> date (newEntry s) \<noteq> [] \<and> location (newEntry s) \<noteq> [] \<longrightarrow>
      (\<forall>img vid.
         fst (handleSubmit now (s\<lparr>newEntry := (newEntry s)\<lparr>image' := img, video := vid\<rparr>\<rparr>))
           = [PreventDefault]
       \<and> entriesObj (snd (handleSubmit now (s\<lparr>newEntry := (newEntry s)\<lparr>image' := img, video := vid\<rparr>\<rparr>)))
           = Suc (entriesObj s)))"
  by (simp add: handleSubmit_def resetForm_def setEntries_def Let_def)

theorem handleSubmit_required_fields_witness:
  "date (newEntry (exampleState\<lparr>newEntry := kyoto\<lparr>date := []\<rparr>\<rparr>)) = []
   \<and> handleSubmit 1700000009000 (exampleState\<lparr>newEntry := kyoto\<lparr>date := []\<rparr>\<rparr>)
       = ([PreventDefault, Alert], exampleState\<lparr>newEntry := kyoto\<lparr>date := []\<rparr>\<rparr>)
   \<and> title (newEntry exampleState) \<noteq> [] \<and> date (newEntry exampleState) \<noteq> []
   \<and> location (newEntry exampleState) \<noteq> []
   \<and> fst (handleSubmit 1700000009000
        (exampleState\<lparr>newEntry := (newEntry exampleState)\<lparr>image' := None, video := None\<rparr>\<rparr>))
       = [PreventDefault]"
proof -
  have a: "date (newEntry (exampleState\<lparr>newEntry := kyoto\<lparr>date := []\<rparr>\<rparr>)) = []"
    by simp
  have b: "title (newEntry exampleState) \<noteq> []" "date (newEntry exampleState) \<noteq> []"
    "location (newEntry exampleState) \<noteq> []"
    by (simp_all add: example_defs)
  from handleSubmit_required_fields [of "exampleState\<lparr>newEntry := kyoto\<lparr>date := []\<rparr>\<rparr>" 1700000009000] a
  have 1: "handleSubmit 1700000009000 (exampleState\<lparr>newEntry := kyoto\<lparr>date := []\<rparr>\<rparr>)
       = ([PreventDefault, Alert], exampleState\<lparr>newEntry := kyoto\<lparr>date := []\<rparr>\<rparr>)"
    by blast
  from handleSubmit_required_fields [of exampleState 1700000009000] b
  have 2: "fst (handleSubmit 1700000009000
        (exampleState\<lparr>newEntry := (newEntry exampleState)\<lparr>image' := None, video := None\<rparr>\<rparr>))
       = [PreventDefault]"
    by blast
  from a b 1 2 show ?thesis by blast
qed

text \<open>
  C6, as the code has it. For every change of the location input, \<open>handleLocationChange\<close>
  sets the location of \<open>newEntry\<close> to the typed value. When the value has more than two
  characters it asks the endpoint for suggestions for that value, and when the endpoint
  answers with an ok response and a list, that list becomes the suggestions state.
\<close>

theorem handleLocationChange_fetches_long_values:
  "location (newEntry (snd (handleLocationChange fetch value s))) = value
   \<and> (length value > 2 \<longrightarrow>
        Fetch (''https://api.example.com/suggestions?query='' @ value)
          \<in> set (fst (handleLocationChange fetch value s))
      \<and> (\<forall>fetched.
           fetch (''https://api.example.com/suggestions?query='' @ value)
             = Inr (Response True (Inr fetched)) \<longrightarrow>
           suggestions (snd (handleLocationChange fetch value s)) = fetched))"
proof (intro conjI impI allI)
  show "location (newEntry (snd (handleLocationChange fetch value s))) = value"
    by (rule handleLocationChange_location)
next
  assume "length value > 2"
  then show "Fetch (''https://api.example.com/suggestions?query='' @ value)
          \<in> set (fst (handleLocationChange fetch value s))"
    by (simp add: handleLocationChange_long split: sum.splits)
next
  fix fetched
  assume "length value > 2"
    and "fetch (''https://api.example.com/suggestions?query='' @ value)
           = Inr (Response True (Inr fetched))"
  then show "suggestions (snd (handleLocationChange fetch value s)) = fetched"
    by (simp add: handleLocationChange_long fetchSuggestions_def)
qed

theorem handleLocationChange_fetches_long_values_witness:
  "length ''Kyo'' > 2
   \<and> fetch_ok (''https://api.example.com/suggestions?query='' @ ''Kyo'')
       = Inr (Response True (Inr [kyotoSuggestion]))
   \<and> location (newEntry (snd (handleLocationChange fetch_ok ''Kyo'' (exampleState\<lparr>suggestions := []\<rparr>))))
       = ''Kyo''
   \<and> Fetch (''https://api.example.com/suggestions?query='' @ ''Kyo'')
        \<in> set (fst (handleLocationChange fetch_ok ''Kyo'' (exampleState\<lparr>suggestions := []\<rparr>)))
   \<and> suggestions (snd (handleLocationChange fetch_ok ''Kyo'' (exampleState\<lparr>suggestions := []\<rparr>)))
       = [kyotoSuggestion]"
proof -
  have a: "length ''Kyo'' > 2" by simp
  have b: "fetch_ok (''https://api.example.com/suggestions?query='' @ ''Kyo'')
       = Inr (Response True (Inr [kyotoSuggestion]))"
    by (simp add: fetch_ok_def)
  from handleLocationChange_fetches_long_values
         [of fetch_ok "''Kyo''" "exampleState\<lparr>suggestions := []\<rparr>"] a b
  show ?thesis by blast
qed

text \<open>
  C6, as the claim has it, has a fetch on every keystroke. For the two-character value
  \<open>Ky\<close> no request is made, and the list the endpoint would have given does not become
  the suggestions state.
\<close>

theorem handleLocationChange_no_fetch_for_short_value:
  "Fetch (''https://api.example.com/suggestions?query='' @ ''Ky'')
     \<notin> set (fst (handleLocationChange fetch_ok ''Ky'' exampleState))
   \<and> snd (fetchSuggestions fetch_ok ''Ky'') = Inr [kyotoSuggestion]
   \<and> suggestions (snd (handleLocationChange fetch_ok ''Ky'' exampleState)) \<noteq> [kyotoSuggestion]"
  by (simp add: handleLocationChange_def fetchSuggestions_def fetch_ok_def)

text \<open>
  C7. Authentication gates the journal. In every state of the declared type, where
  \<open>user\<close> is a \<open>User\<close> object or null, the component renders the main content (header, entry
  form and entry list, over the current form state and entries) exactly when \<open>user\<close> is not
  null, and the authentication screen exactly when \<open>user\<close> is null.
\<close>

theorem TravelJournal_auth_gate:
  "((\<exists>h f m g. TravelJournal s = MainContent h f m g (entries s)) \<longleftrightarrow> user s \<noteq> None)
   \<and> ((\<exists>b. TravelJournal s = AuthScreen b) \<longleftrightarrow> user s = None)
   \<and> (user s \<noteq> None \<longrightarrow> TravelJournal s = renderMainContent s
         \<and> formNewEntry (TravelJournal s) = newEntry s \<and> listEntries (TravelJournal s) = entries s)
   \<and> (user s = None \<longrightarrow> TravelJournal s = renderAuthForm s)"
  by (cases "user s") (auto simp: TravelJournal_def renderMainContent_def renderAuthForm_def)

theorem TravelJournal_auth_gate_witness:
  "user exampleState \<noteq> None \<and> TravelJournal exampleState = renderMainContent exampleState
   \<and> listEntries (TravelJournal exampleState) = [paris, rome]
   \<and> user (handleLogout exampleState) = None
   \<and> TravelJournal (handleLogout exampleState) = AuthScreen LoginSignUpButtons"
proof -
  have a: "user exampleState \<noteq> None" "entries exampleState = [paris, rome]"
    by (simp_all add: exampleState_def)
  have b: "user (handleLogout exampleState) = None"
    "renderAuthForm (handleLogout exampleState) = AuthScreen LoginSignUpButtons"
    by (simp_all add: handleLogout_def renderAuthForm_def exampleState_def)
  from TravelJournal_auth_gate [of exampleState] a
  have 1: "TravelJournal exampleState = renderMainContent exampleState"
    and 2: "listEntries (TravelJournal exampleState) = [paris, rome]"
    by metis+
  from TravelJournal_auth_gate [of "handleLogout exampleState"] b
  have 3: "TravelJournal (handleLogout exampleState) = AuthScreen LoginSignUpButtons"
    by metis
  from a b 1 2 3 show ?thesis by blast
qed

text \<open>
  C8. Logout does not touch the journal. \<open>handleLogout\<close> removes the key \<open>user\<close> from
  \<open>localStorage\<close> and sets \<open>user\<close> to null. The entries list and the key \<open>journalEntries\<close> are
  as before; the effect does not run after the logout, since the entries array is the same
  one; and what \<open>loadSavedEntries\<close> reads from the storage is what it read before.
\<close>

theorem handleLogout_keeps_journal:
  "user (handleLogout s) = None
   \<and> localStorage (handleLogout s) ''user'' = None
   \<and> entries (handleLogout s) = entries s
   \<and> localStorage (handleLogout s) ''journalEntries'' = localStorage s ''journalEntries''
   \<and> dispatch hasWindow withinQuota fetch JSON_stringify Logout s = Ok (handleLogout s)
   \<and> loadSavedEntries hasWindow JSON_parse (localStorage (handleLogout s))
       = loadSavedEntries hasWindow JSON_parse (localStorage s)"
  by (simp add: handleLogout_def dispatch_def useEffect_update_def loadSavedEntries_def)

theorem handleLogout_keeps_journal_witness:
  "user (handleLogout exampleState) = None
   \<and> localStorage (handleLogout exampleState) ''user'' = None
   \<and> entries (handleLogout exampleState) = [paris, rome]
   \<and> localStorage (handleLogout exampleState) ''journalEntries'' = Some ''e''"
  using handleLogout_keeps_journal [of exampleState]
  by (simp add: exampleState_def)

text \<open>
  C9. Short input clears, failure preserves. In \<open>handleLocationChange\<close>, a value of length
  at most 2 empties the suggestions and makes no request. For a value of length greater
  than 2 whose request fails, because \<open>fetch\<close> throws or because the response is not ok,
  the suggestions are the ones from before the call.
\<close>

theorem handleLocationChange_short_clears_failure_keeps:
  "(length value \<le> 2 \<longrightarrow>
      fst (handleLocationChange fetch value s) = []
    \<and> suggestions (snd (handleLocationChange fetch value s)) = [])
   \<and> (length value > 2 \<and>
       ((\<exists>e. fetch (''https://api.example.com/suggestions?query='' @ value) = Inl e)
        \<or> (\<exists>response. fetch (''https://api.example.com/suggestions?query='' @ value) = Inr response
              \<and> \<not> ok response)) \<longrightarrow>
      suggestions (snd (handleLocationChange fetch value s)) = suggestions s)"
proof (intro conjI impI)
  assume "length value \<le> 2"
  then show "fst (handleLocationChange fetch value s) = []"
    and "suggestions (snd (handleLocationChange fetch value s)) = []"
    by (simp_all add: handleLocationChange_def)
next
  assume a: "length value > 2 \<and>
       ((\<exists>e. fetch (''https://api.example.com/suggestions?query='' @ value) = Inl e)
        \<or> (\<exists>response. fetch (''https://api.example.com/suggestions?query='' @ value) = Inr response
              \<and> \<not> ok response))"
  then have "\<exists>e. snd (fetchSuggestions fetch value) = Inl e"
    by (auto simp: fetchSuggestions_def)
  with a show "suggestions (snd (handleLocationChange fetch value s)) = suggestions s"
    by (auto simp: handleLocationChange_long)
qed

theorem handleLocationChange_short_clears_failure_keeps_witness:
  "length ''Ky'' \<le> 2
   \<and> fst (handleLocationChange fetch_ok ''Ky'' exampleState) = []
   \<and> suggestions (snd (handleLocationChange fetch_ok ''Ky'' exampleState)) = []
   \<and> length ''Kyo'' > 2
   \<and> fetch_down (''https://api.example.com/suggestions?query='' @ ''Kyo'')
       = Inr (Response False (Inl SyntaxError))
   \<and> \<not> ok (Response False (Inl SyntaxError))
   \<and> suggestions (snd (handleLocationChange fetch_down ''Kyo'' exampleState)) = [kyotoSuggestion]"
proof -
  have a: "length ''Ky'' \<le> 2" "length ''Kyo'' > 2" by simp_all
  have b: "fetch_down (''https://api.example.com/suggestions?query='' @ ''Kyo'')
       = Inr (Response False (Inl SyntaxError))"
    "\<not> ok (Response False (Inl SyntaxError))"
    by (simp_all add: fetch_down_def)
  have c: "suggestions exampleState = [kyotoSuggestion]" by (simp add: exampleState_def)
  from handleLocationChange_short_clears_failure_keeps [of "''Ky''" fetch_ok exampleState] a
  have 1: "fst (handleLocationChange fetch_ok ''Ky'' exampleState) = []"
    "suggestions (snd (handleLocationChange fetch_ok ''Ky'' exampleState)) = []"
    by blast+
  from handleLocationChange_short_clears_failure_keeps [of "''Kyo''" fetch_down exampleState] a b c
  have 2: "suggestions (snd (handleLocationChange fetch_down ''Kyo'' exampleState)) = [kyotoSuggestion]"
    by metis
  from a b 1 2 show ?thesis by blast
qed

text \<open>
  C10. Every successful submission resets the editor. After a \<open>handleSubmit\<close> that passes
  the validation, on the create path and on the edit path alike, the form state is the
  initial empty entry (title, date, location and notes empty, image and video null), the
  suggestions are empty, \<open>editMode\<close> is false and \<open>editIndex\<close> is null.
\<close>

theorem handleSubmit_resets_editor:
  assumes "title (newEntry s) \<noteq> []" and "date (newEntry s) \<noteq> []" and "location (newEntry s) \<noteq> []"
  shows "newEntry (snd (handleSubmit now s)) = initialNewEntry
       \<and> title (newEntry (snd (handleSubmit now s))) = []
       \<and> date (newEntry (snd (handleSubmit now s))) = []
       \<and> location (newEntry (snd (handleSubmit now s))) = []
       \<and> notes' (newEntry (snd (handleSubmit now s))) = []
       \<and> image' (newEntry (snd (handleSubmit now s))) = None
       \<and> video (newEntry (snd (handleSubmit now s))) = None
       \<and> suggestions (snd (handleSubmit now s)) = []
       \<and> \<not> editMode (snd (handleSubmit now s))
       \<and> editIndex (snd (handleSubmit now s)) = None"
  using assms by (simp add: handleSubmit_def resetForm_def initialNewEntry_def Let_def)

theorem handleSubmit_resets_editor_witness:
  "title (newEntry (exampleState\<lparr>editMode := True, editIndex := Some 0\<rparr>)) \<noteq> []
   \<and> date (newEntry (exampleState\<lparr>editMode := True, editIndex := Some 0\<rparr>)) \<noteq> []
   \<and> location (newEntry (exampleState\<lparr>editMode := True, editIndex := Some 0\<rparr>)) \<noteq> []
   \<and> newEntry (snd (handleSubmit 1700000009000 (exampleState\<lparr>editMode := True, editIndex := Some 0\<rparr>)))
       = initialNewEntry
   \<and> suggestions (snd (handleSubmit 1700000009000 (exampleState\<lparr>editMode := True, editIndex := Some 0\<rparr>)))
       = []
   \<and> \<not> editMode (snd (handleSubmit 1700000009000 (exampleState\<lparr>editMode := True, editIndex := Some 0\<rparr>)))
   \<and> editIndex (snd (handleSubmit 1700000009000 (exampleState\<lparr>editMode := True, editIndex := Some 0\<rparr>)))
       = None"
proof -
  let ?s = "exampleState\<lparr>editMode := True, editIndex := Some 0\<rparr>"
  have h: "title (newEntry ?s) \<noteq> []" "date (newEntry ?s) \<noteq> []" "location (newEntry ?s) \<noteq> []"
    by (simp_all add: example_defs)
  from handleSubmit_resets_editor [OF h, of 1700000009000] h show ?thesis
    by simp
qed

end
